theory Spec2Isabelle
  imports Main "HOL-Library.Multiset"
begin

section \<open>Data model (src/database/models.py)\<close>

text \<open>
  Timestamps (\<^verbatim>\<open>datetime.utcnow()\<close>) are integers counting seconds. The three tables
  are lists of rows in insertion order; \<^verbatim>\<open>db.query(X).filter(c).first()\<close> is
  \<^const>\<open>find\<close>. The columns \<^verbatim>\<open>created_at\<close> and \<^verbatim>\<open>updated_at\<close> are never passed by a
  handler, so their column default (the time of the insert) always applies.
\<close>

type_synonym datetime = int

record User =
  user_id :: string
  user_email :: string
  user_password :: string
  user_name :: string
  user_profile_picture :: "string option"
  user_created_at :: datetime

record Post =
  post_id :: string
  post_title :: string
  post_content :: string
  post_excerpt :: "string option"
  post_category :: "string option"
  post_author_id :: string
  post_created_at :: datetime
  post_updated_at :: datetime

record Comment =
  comment_id :: string
  comment_content :: string
  comment_post_id :: string
  comment_author_id :: string
  comment_created_at :: datetime
  comment_updated_at :: datetime

record db =
  users :: "User list"
  posts :: "Post list"
  comments :: "Comment list"

definition empty_db :: db where
  "empty_db = \<lparr>users = [], posts = [], comments = []\<rparr>"

section \<open>Request and response schemas (src/database/schemas.py)\<close>

text \<open>
  An \<^verbatim>\<open>Optional[str] = None\<close> field is a \<open>string option\<close>: a field left out of the
  request body and a field sent as null are the same \<open>None\<close>. The length constraints of
  the schemas are checked by the framework before a handler is called; the handlers do
  not depend on them.
\<close>

record UserCreate =
  uc_email :: string
  uc_name :: string
  uc_password :: string

record UserResponse =
  ur_email :: string
  ur_name :: string
  ur_id :: string
  ur_profile_picture :: "string option"
  ur_created_at :: datetime

record UserUpdate =
  uu_name :: "string option"
  uu_profile_picture :: "string option"

record PostCreate =
  pc_title :: string
  pc_content :: string
  pc_excerpt :: "string option"
  pc_category :: "string option"

record PostUpdate =
  pu_title :: "string option"
  pu_content :: "string option"
  pu_excerpt :: "string option"
  pu_category :: "string option"

text \<open>
  \<^verbatim>\<open>PostResponse\<close> declares \<^verbatim>\<open>author_profile_picture: Optional[str] = None\<close>: a
  constructor call that does not pass the field leaves it \<^verbatim>\<open>None\<close>.
\<close>

record PostResponse =
  pr_title :: string
  pr_content :: string
  pr_excerpt :: "string option"
  pr_category :: "string option"
  pr_id :: string
  pr_author_id :: string
  pr_author_name :: string
  pr_author_profile_picture :: "string option"
  pr_created_at :: datetime
  pr_updated_at :: datetime

record CommentCreate =
  cc_content :: string

record CommentUpdate =
  cu_content :: string

record CommentResponse =
  cr_content :: string
  cr_id :: string
  cr_post_id :: string
  cr_author_id :: string
  cr_author_name :: string
  cr_author_profile_picture :: "string option"
  cr_created_at :: datetime
  cr_updated_at :: datetime

record MessageResponse =
  message :: string

section \<open>Errors\<close>

text \<open>
  A handler either raises \<^verbatim>\<open>HTTPException(status_code, detail)\<close> or lets another
  exception escape, which \<^verbatim>\<open>general_exception_handler\<close> of main.py answers with
  status 500 and the detail \<^verbatim>\<open>Internal server error\<close>. Every handler of the model
  returns its result together with the store it leaves behind.
\<close>

datatype http_error = HTTPException nat string | InternalServerError

fun status_code :: "http_error \<Rightarrow> nat" where
  "status_code (HTTPException c d) = c"
| "status_code InternalServerError = 500"

fun detail :: "http_error \<Rightarrow> string" where
  "detail (HTTPException c d) = d"
| "detail InternalServerError = ''Internal server error''"

section \<open>The ORM operations the handlers use\<close>

text \<open>\<^verbatim>\<open>order_by(X.created_at.desc())\<close>: rows with the largest timestamp first.\<close>

definition order_by_desc :: "('a \<Rightarrow> datetime) \<Rightarrow> 'a list \<Rightarrow> 'a list" where
  "order_by_desc key xs = sort_key (\<lambda>x. - key x) xs"

text \<open>The relationship \<^verbatim>\<open>post.author\<close> and \<^verbatim>\<open>comment.author\<close>: the row of the foreign key.\<close>

definition post_author :: "db \<Rightarrow> Post \<Rightarrow> User option" where
  "post_author d p = find (\<lambda>u. user_id u = post_author_id p) (users d)"

definition comment_author :: "db \<Rightarrow> Comment \<Rightarrow> User option" where
  "comment_author d c = find (\<lambda>u. user_id u = comment_author_id c) (users d)"

text \<open>
  \<^verbatim>\<open>db.add(row); db.commit()\<close>: the primary key (and, for users, the unique email
  column) is enforced by the database; a violation is an exception the handlers do not
  catch.
\<close>

definition add_post :: "Post \<Rightarrow> db \<Rightarrow> db option" where
  "add_post p d =
     (if list_ex (\<lambda>q. post_id q = post_id p) (posts d) then None
      else Some (d\<lparr>posts := posts d @ [p]\<rparr>))"

definition add_comment :: "Comment \<Rightarrow> db \<Rightarrow> db option" where
  "add_comment c d =
     (if list_ex (\<lambda>q. comment_id q = comment_id c) (comments d) then None
      else Some (d\<lparr>comments := comments d @ [c]\<rparr>))"

definition add_user :: "User \<Rightarrow> db \<Rightarrow> db option" where
  "add_user u d =
     (if list_ex (\<lambda>q. user_id q = user_id u \<or> user_email q = user_email u) (users d) then None
      else Some (d\<lparr>users := users d @ [u]\<rparr>))"

section \<open>Post handlers (src/routes/posts.py)\<close>

definition create_post ::
  "PostCreate \<Rightarrow> User \<Rightarrow> db \<Rightarrow> string \<Rightarrow> datetime \<Rightarrow> (http_error + PostResponse) \<times> db" where
  "create_post post_data current_user d uuid4 now =
     (let new_post = \<lparr>post_id = uuid4, post_title = pc_title post_data,
                       post_content = pc_content post_data, post_excerpt = pc_excerpt post_data,
                       post_category = pc_category post_data,
                       post_author_id = user_id current_user,
                       post_created_at = now, post_updated_at = now\<rparr>
      in case add_post new_post d of
           None \<Rightarrow> (Inl InternalServerError, d)
         | Some d' \<Rightarrow>
             (Inr \<lparr>pr_title = post_title new_post, pr_content = post_content new_post,
                   pr_excerpt = post_excerpt new_post, pr_category = post_category new_post,
                   pr_id = post_id new_post, pr_author_id = post_author_id new_post,
                   pr_author_name = user_name current_user,
                   pr_author_profile_picture = None,
                   pr_created_at = post_created_at new_post,
                   pr_updated_at = post_updated_at new_post\<rparr>, d'))"

text \<open>
  The response the three reading paths build from a stored post: the author's name comes
  from the relationship \<^verbatim>\<open>post.author\<close>; where that row is missing, the attribute access on
  \<^verbatim>\<open>None\<close> raises.
\<close>

definition post_response :: "db \<Rightarrow> Post \<Rightarrow> PostResponse option" where
  "post_response d post =
     (case post_author d post of
        None \<Rightarrow> None
      | Some author \<Rightarrow>
          Some \<lparr>pr_title = post_title post, pr_content = post_content post,
                pr_excerpt = post_excerpt post, pr_category = post_category post,
                pr_id = post_id post, pr_author_id = post_author_id post,
                pr_author_name = user_name author,
                pr_author_profile_picture = None,
                pr_created_at = post_created_at post,
                pr_updated_at = post_updated_at post\<rparr>)"

definition get_all_posts :: "db \<Rightarrow> http_error + PostResponse list" where
  "get_all_posts d =
     (let ps = order_by_desc post_created_at (posts d)
      in case those (map (post_response d) ps) of
           None \<Rightarrow> Inl InternalServerError
         | Some rs \<Rightarrow> Inr rs)"

definition get_post_by_id :: "string \<Rightarrow> db \<Rightarrow> http_error + PostResponse" where
  "get_post_by_id pid d =
     (case find (\<lambda>p. post_id p = pid) (posts d) of
        None \<Rightarrow> Inl (HTTPException 404 ''Post not found'')
      | Some post \<Rightarrow>
          (case post_response d post of
             None \<Rightarrow> Inl InternalServerError
           | Some r \<Rightarrow> Inr r))"

text \<open>The four conditional assignments of \<^verbatim>\<open>update_post\<close>, then the timestamp.\<close>

definition apply_post_update :: "PostUpdate \<Rightarrow> datetime \<Rightarrow> Post \<Rightarrow> Post" where
  "apply_post_update post_data now post =
     (let p1 = (case pu_title post_data of None \<Rightarrow> post | Some t \<Rightarrow> post\<lparr>post_title := t\<rparr>);
          p2 = (case pu_content post_data of None \<Rightarrow> p1 | Some c \<Rightarrow> p1\<lparr>post_content := c\<rparr>);
          p3 = (case pu_excerpt post_data of None \<Rightarrow> p2 | Some e \<Rightarrow> p2\<lparr>post_excerpt := Some e\<rparr>);
          p4 = (case pu_category post_data of None \<Rightarrow> p3 | Some c \<Rightarrow> p3\<lparr>post_category := Some c\<rparr>)
      in p4\<lparr>post_updated_at := now\<rparr>)"

definition update_post ::
  "string \<Rightarrow> PostUpdate \<Rightarrow> User \<Rightarrow> db \<Rightarrow> datetime \<Rightarrow> (http_error + PostResponse) \<times> db" where
  "update_post pid post_data current_user d now =
     (case find (\<lambda>p. post_id p = pid) (posts d) of
        None \<Rightarrow> (Inl (HTTPException 404 ''Post not found''), d)
      | Some post \<Rightarrow>
          if post_author_id post \<noteq> user_id current_user
          then (Inl (HTTPException 403
                  ''Unauthorized access - only the author can edit this post''), d)
          else
            (let post' = apply_post_update post_data now post;
                 d' = d\<lparr>posts := map (\<lambda>p. if post_id p = pid then post' else p) (posts d)\<rparr>
             in case post_response d' post' of
                  None \<Rightarrow> (Inl InternalServerError, d')
                | Some r \<Rightarrow> (Inr r, d')))"

text \<open>
  \<^verbatim>\<open>db.delete(post)\<close> follows the relationship \<^verbatim>\<open>Post.comments\<close>, declared with
  \<^verbatim>\<open>cascade="all, delete-orphan"\<close>: the comments of the post are deleted with it.
\<close>

definition delete_post ::
  "string \<Rightarrow> User \<Rightarrow> db \<Rightarrow> (http_error + MessageResponse) \<times> db" where
  "delete_post pid current_user d =
     (case find (\<lambda>p. post_id p = pid) (posts d) of
        None \<Rightarrow> (Inl (HTTPException 404 ''Post not found''), d)
      | Some post \<Rightarrow>
          if post_author_id post \<noteq> user_id current_user
          then (Inl (HTTPException 403
                  ''Unauthorized access - only the author can delete this post''), d)
          else
            (Inr \<lparr>message = ''Post successfully deleted''\<rparr>,
             d\<lparr>posts := filter (\<lambda>p. post_id p \<noteq> post_id post) (posts d),
               comments := filter (\<lambda>c. comment_post_id c \<noteq> post_id post) (comments d)\<rparr>))"

section \<open>Comment handlers (src/routes/comments.py)\<close>

definition create_comment ::
  "string \<Rightarrow> CommentCreate \<Rightarrow> User \<Rightarrow> db \<Rightarrow> string \<Rightarrow> datetime
     \<Rightarrow> (http_error + CommentResponse) \<times> db" where
  "create_comment pid comment_data current_user d uuid4 now =
     (case find (\<lambda>p. post_id p = pid) (posts d) of
        None \<Rightarrow> (Inl (HTTPException 404 ''Post not found''), d)
      | Some post \<Rightarrow>
          (let new_comment = \<lparr>comment_id = uuid4, comment_content = cc_content comment_data,
                              comment_post_id = pid, comment_author_id = user_id current_user,
                              comment_created_at = now, comment_updated_at = now\<rparr>
           in case add_comment new_comment d of
                None \<Rightarrow> (Inl InternalServerError, d)
              | Some d' \<Rightarrow>
                  (Inr \<lparr>cr_content = comment_content new_comment, cr_id = comment_id new_comment,
                        cr_post_id = comment_post_id new_comment,
                        cr_author_id = comment_author_id new_comment,
                        cr_author_name = user_name current_user,
                        cr_author_profile_picture = user_profile_picture current_user,
                        cr_created_at = comment_created_at new_comment,
                        cr_updated_at = comment_updated_at new_comment\<rparr>, d')))"

definition comment_response :: "db \<Rightarrow> Comment \<Rightarrow> CommentResponse option" where
  "comment_response d comment =
     (case comment_author d comment of
        None \<Rightarrow> None
      | Some author \<Rightarrow>
          Some \<lparr>cr_content = comment_content comment, cr_id = comment_id comment,
                cr_post_id = comment_post_id comment, cr_author_id = comment_author_id comment,
                cr_author_name = user_name author,
                cr_author_profile_picture = user_profile_picture author,
                cr_created_at = comment_created_at comment,
                cr_updated_at = comment_updated_at comment\<rparr>)"

definition get_comments_by_post :: "string \<Rightarrow> db \<Rightarrow> http_error + CommentResponse list" where
  "get_comments_by_post pid d =
     (case find (\<lambda>p. post_id p = pid) (posts d) of
        None \<Rightarrow> Inl (HTTPException 404 ''Post not found'')
      | Some post \<Rightarrow>
          (let cs = order_by_desc comment_created_at
                      (filter (\<lambda>c. comment_post_id c = pid) (comments d))
           in case those (map (comment_response d) cs) of
                None \<Rightarrow> Inl InternalServerError
              | Some rs \<Rightarrow> Inr rs))"

definition update_comment ::
  "string \<Rightarrow> CommentUpdate \<Rightarrow> User \<Rightarrow> db \<Rightarrow> datetime
     \<Rightarrow> (http_error + CommentResponse) \<times> db" where
  "update_comment cid comment_data current_user d now =
     (case find (\<lambda>c. comment_id c = cid) (comments d) of
        None \<Rightarrow> (Inl (HTTPException 404 ''Comment not found''), d)
      | Some comment \<Rightarrow>
          if comment_author_id comment \<noteq> user_id current_user
          then (Inl (HTTPException 403
                  ''Unauthorized access - only the author can edit this comment''), d)
          else
            (let comment' = comment\<lparr>comment_content := cu_content comment_data,
                                    comment_updated_at := now\<rparr>;
                 d' = d\<lparr>comments :=
                         map (\<lambda>c. if comment_id c = cid then comment' else c) (comments d)\<rparr>
             in case comment_response d' comment' of
                  None \<Rightarrow> (Inl InternalServerError, d')
                | Some r \<Rightarrow> (Inr r, d')))"

definition delete_comment ::
  "string \<Rightarrow> User \<Rightarrow> db \<Rightarrow> (http_error + MessageResponse) \<times> db" where
  "delete_comment cid current_user d =
     (case find (\<lambda>c. comment_id c = cid) (comments d) of
        None \<Rightarrow> (Inl (HTTPException 404 ''Comment not found''), d)
      | Some comment \<Rightarrow>
          if comment_author_id comment \<noteq> user_id current_user
          then (Inl (HTTPException 403
                  ''Unauthorized access - only the author can delete this comment''), d)
          else
            (Inr \<lparr>message = ''Comment successfully deleted''\<rparr>,
             d\<lparr>comments := filter (\<lambda>c. comment_id c \<noteq> comment_id comment) (comments d)\<rparr>))"

section \<open>User handlers (src/routes/users.py)\<close>

definition user_response :: "User \<Rightarrow> UserResponse" where
  "user_response u =
     \<lparr>ur_email = user_email u, ur_name = user_name u, ur_id = user_id u,
      ur_profile_picture = user_profile_picture u, ur_created_at = user_created_at u\<rparr>"

definition get_current_user_profile :: "User \<Rightarrow> UserResponse" where
  "get_current_user_profile current_user = user_response current_user"

definition update_user_profile :: "UserUpdate \<Rightarrow> User \<Rightarrow> db \<Rightarrow> UserResponse \<times> db" where
  "update_user_profile user_data current_user d =
     (let u1 = (case uu_name user_data of
                  None \<Rightarrow> current_user | Some n \<Rightarrow> current_user\<lparr>user_name := n\<rparr>);
          u2 = (case uu_profile_picture user_data of
                  None \<Rightarrow> u1 | Some pic \<Rightarrow> u1\<lparr>user_profile_picture := Some pic\<rparr>)
      in (user_response u2,
          d\<lparr>users := map (\<lambda>u. if user_id u = user_id current_user then u2 else u) (users d)\<rparr>))"

text \<open>
  \<^verbatim>\<open>get_user_posts\<close> takes the author's name from \<^verbatim>\<open>current_user\<close>, not from the
  relationship, so it has no failing path.
\<close>

definition get_user_posts :: "User \<Rightarrow> db \<Rightarrow> PostResponse list" where
  "get_user_posts current_user d =
     (let ps = order_by_desc post_created_at
                 (filter (\<lambda>p. post_author_id p = user_id current_user) (posts d))
      in map (\<lambda>post.
            \<lparr>pr_title = post_title post, pr_content = post_content post,
             pr_excerpt = post_excerpt post, pr_category = post_category post,
             pr_id = post_id post, pr_author_id = post_author_id post,
             pr_author_name = user_name current_user,
             pr_author_profile_picture = None,
             pr_created_at = post_created_at post,
             pr_updated_at = post_updated_at post\<rparr>) ps)"

section \<open>Configuration (src/config/settings.py)\<close>

record Settings =
  SECRET_KEY :: string
  ALGORITHM :: string
  ACCESS_TOKEN_EXPIRE_MINUTES :: int

section \<open>Credential service and authorization guard\<close>

text \<open>
  Modelled from the spec: src/middleware/auth.py (\<^verbatim>\<open>create_access_token\<close>, the token
  verification, \<^verbatim>\<open>get_password_hash\<close>, \<^verbatim>\<open>verify_password\<close>) and
  src/middleware/dependencies.py (\<^verbatim>\<open>get_current_user\<close>) are not among the sources.
  A token carries the subject, the expiration timestamp and a signature; a string that
  does not parse is \<open>Malformed\<close>. The keyed signature function is a parameter
  \<open>sign algorithm secret (subject, expiration)\<close>, and so is the password hash
  in \<open>register\<close>.
\<close>

datatype access_token = Malformed string | Signed string datetime string

datatype token_error = InvalidToken

type_synonym signer = "string \<Rightarrow> string \<Rightarrow> string \<times> datetime \<Rightarrow> string"

text \<open>
  Modelled from the spec: \<^verbatim>\<open>issue_token\<close> "produces a signed token encoding the subject
  identifier and an expiration timestamp set to now + configured TTL" (in minutes).
\<close>

definition create_access_token :: "Settings \<Rightarrow> signer \<Rightarrow> datetime \<Rightarrow> string \<Rightarrow> access_token" where
  "create_access_token cfg sign now subject =
     (let expire = now + 60 * ACCESS_TOKEN_EXPIRE_MINUTES cfg
      in Signed subject expire (sign (ALGORITHM cfg) (SECRET_KEY cfg) (subject, expire)))"

text \<open>
  Modelled from the spec: \<^verbatim>\<open>verify_token\<close> "fails with InvalidToken if signature
  invalid, malformed, or expired; otherwise returns the encoded subject identifier". A
  token is expired when its expiration lies in the past. The spec does not say what
  happens in the very second of the expiration; no theorem below depends on it.
\<close>

definition verify_token ::
  "Settings \<Rightarrow> signer \<Rightarrow> datetime \<Rightarrow> access_token \<Rightarrow> token_error + string" where
  "verify_token cfg sign now token =
     (case token of
        Malformed s \<Rightarrow> Inl InvalidToken
      | Signed subject expire sg \<Rightarrow>
          if sg \<noteq> sign (ALGORITHM cfg) (SECRET_KEY cfg) (subject, expire) then Inl InvalidToken
          else if expire < now then Inl InvalidToken
          else Inr subject)"

text \<open>
  Modelled from the spec: the authorization guard "fails with Unauthenticated (HTTP 401)
  if [the bearer token is] absent or verify_token fails. On success, loads the User by the
  decoded subject identifier from the Data Store; fails with Unauthenticated if no such
  User exists." The spec does not give the detail text of the 401 response.
\<close>

definition Unauthenticated :: http_error where
  "Unauthenticated = HTTPException 401 ''Unauthenticated''"

definition get_current_user ::
  "Settings \<Rightarrow> signer \<Rightarrow> db \<Rightarrow> datetime \<Rightarrow> access_token option \<Rightarrow> http_error + User" where
  "get_current_user cfg sign d now authorization =
     (case authorization of
        None \<Rightarrow> Inl Unauthenticated
      | Some token \<Rightarrow>
          (case verify_token cfg sign now token of
             Inl e \<Rightarrow> Inl Unauthenticated
           | Inr subject \<Rightarrow>
               (case find (\<lambda>u. user_id u = subject) (users d) of
                  None \<Rightarrow> Inl Unauthenticated
                | Some u \<Rightarrow> Inr u)))"

text \<open>
  What the guard establishes for the \<^verbatim>\<open>current_user\<close> of a protected handler: it is the
  row the store holds under its identifier.
\<close>

definition authenticated :: "db \<Rightarrow> User \<Rightarrow> bool" where
  "authenticated d u = (find (\<lambda>v. user_id v = user_id u) (users d) = Some u)"

section \<open>Auth handlers (src/routes/auth.py)\<close>

record Token =
  access_token :: access_token
  token_type :: string
  token_user :: UserResponse

definition register ::
  "UserCreate \<Rightarrow> db \<Rightarrow> string \<Rightarrow> (string \<Rightarrow> string) \<Rightarrow> datetime \<Rightarrow> Settings \<Rightarrow> signer
     \<Rightarrow> (http_error + Token) \<times> db" where
  "register user_data d uuid4 get_password_hash now cfg sign =
     (case find (\<lambda>u. user_email u = uc_email user_data) (users d) of
        Some existing_user \<Rightarrow> (Inl (HTTPException 400 ''Email already registered''), d)
      | None \<Rightarrow>
          (let new_user = \<lparr>user_id = uuid4, user_email = uc_email user_data,
                           user_password = get_password_hash (uc_password user_data),
                           user_name = uc_name user_data, user_profile_picture = None,
                           user_created_at = now\<rparr>
           in case add_user new_user d of
                None \<Rightarrow> (Inl InternalServerError, d)
              | Some d' \<Rightarrow>
                  (Inr \<lparr>access_token = create_access_token cfg sign now (user_id new_user),
                        token_type = ''bearer'',
                        token_user = user_response new_user\<rparr>, d')))"

section \<open>The application: requests served one after another (main.py)\<close>

text \<open>
  The routes that write to the store. Each request carries what the handler reads from
  outside: the authorization header, the clock and, where a row is created, the
  identifier \<^verbatim>\<open>uuid.uuid4()\<close> returns. A protected route runs the guard first.
\<close>

datatype request =
    PostAuthRegister UserCreate string datetime
  | PutUsersMe "access_token option" UserUpdate datetime
  | PostPosts "access_token option" PostCreate string datetime
  | PutPosts "access_token option" string PostUpdate datetime
  | DeletePosts "access_token option" string datetime
  | PostPostsComments "access_token option" string CommentCreate string datetime
  | PutComments "access_token option" string CommentUpdate datetime
  | DeleteComments "access_token option" string datetime

definition protected ::
  "Settings \<Rightarrow> signer \<Rightarrow> db \<Rightarrow> datetime \<Rightarrow> access_token option \<Rightarrow> (User \<Rightarrow> db) \<Rightarrow> db" where
  "protected cfg sign d now authorization handler =
     (case get_current_user cfg sign d now authorization of
        Inl e \<Rightarrow> d
      | Inr current_user \<Rightarrow> handler current_user)"

fun serve :: "Settings \<Rightarrow> signer \<Rightarrow> (string \<Rightarrow> string) \<Rightarrow> db \<Rightarrow> request \<Rightarrow> db" where
  "serve cfg sign gph d (PostAuthRegister user_data uuid4 now) =
     snd (register user_data d uuid4 gph now cfg sign)"
| "serve cfg sign gph d (PutUsersMe auth user_data now) =
     protected cfg sign d now auth (\<lambda>u. snd (update_user_profile user_data u d))"
| "serve cfg sign gph d (PostPosts auth post_data uuid4 now) =
     protected cfg sign d now auth (\<lambda>u. snd (create_post post_data u d uuid4 now))"
| "serve cfg sign gph d (PutPosts auth pid post_data now) =
     protected cfg sign d now auth (\<lambda>u. snd (update_post pid post_data u d now))"
| "serve cfg sign gph d (DeletePosts auth pid now) =
     protected cfg sign d now auth (\<lambda>u. snd (delete_post pid u d))"
| "serve cfg sign gph d (PostPostsComments auth pid comment_data uuid4 now) =
     protected cfg sign d now auth (\<lambda>u. snd (create_comment pid comment_data u d uuid4 now))"
| "serve cfg sign gph d (PutComments auth cid comment_data now) =
     protected cfg sign d now auth (\<lambda>u. snd (update_comment cid comment_data u d now))"
| "serve cfg sign gph d (DeleteComments auth cid now) =
     protected cfg sign d now auth (\<lambda>u. snd (delete_comment cid u d))"

text \<open>The store after a sequence of requests, starting from the empty database.\<close>

definition run :: "Settings \<Rightarrow> signer \<Rightarrow> (string \<Rightarrow> string) \<Rightarrow> request list \<Rightarrow> db" where
  "run cfg sign gph reqs = foldl (serve cfg sign gph) empty_db reqs"

section \<open>Reading a response as a post\<close>

text \<open>
  A \<^verbatim>\<open>PostResponse\<close> without the two fields it adds about the author is a row of the
  posts table; this is used to say which posts a listing returns.
\<close>

definition post_of_response :: "PostResponse \<Rightarrow> Post" where
  "post_of_response r =
     \<lparr>post_id = pr_id r, post_title = pr_title r, post_content = pr_content r,
      post_excerpt = pr_excerpt r, post_category = pr_category r,
      post_author_id = pr_author_id r, post_created_at = pr_created_at r,
      post_updated_at = pr_updated_at r\<rparr>"

section \<open>Integrity conditions of the store\<close>

text \<open>
  The conditions the schema (primary keys, the unique email column, the foreign keys) asks
  of the tables, as executable predicates.
\<close>

definition users_unique :: "db \<Rightarrow> bool" where
  "users_unique d = (distinct (map user_id (users d)) \<and> distinct (map user_email (users d)))"

definition comments_reference_posts :: "db \<Rightarrow> bool" where
  "comments_reference_posts d =
     list_all (\<lambda>c. list_ex (\<lambda>p. post_id p = comment_post_id c) (posts d)) (comments d)"

definition posts_have_authors :: "db \<Rightarrow> bool" where
  "posts_have_authors d =
     list_all (\<lambda>p. list_ex (\<lambda>u. user_id u = post_author_id p) (users d)) (posts d)"

section \<open>A small blog, used to instantiate the theorems\<close>

definition alice :: User where
  "alice = \<lparr>user_id = ''u1'', user_email = ''a@x.com'', user_password = ''h-secret1'',
            user_name = ''Alice'', user_profile_picture = Some ''https://x.com/a.png'',
            user_created_at = 1\<rparr>"

definition bob :: User where
  "bob = \<lparr>user_id = ''u2'', user_email = ''b@x.com'', user_password = ''h-secret2'',
          user_name = ''Bob'', user_profile_picture = None, user_created_at = 2\<rparr>"

definition hello_post :: Post where
  "hello_post = \<lparr>post_id = ''p1'', post_title = ''Hello'', post_content = ''World'',
                 post_excerpt = Some ''Hi'', post_category = None, post_author_id = ''u1'',
                 post_created_at = 3, post_updated_at = 3\<rparr>"

definition later_post :: Post where
  "later_post = \<lparr>post_id = ''p2'', post_title = ''Again'', post_content = ''More'',
                 post_excerpt = None, post_category = Some ''news'', post_author_id = ''u2'',
                 post_created_at = 5, post_updated_at = 5\<rparr>"

definition nice_comment :: Comment where
  "nice_comment = \<lparr>comment_id = ''c1'', comment_content = ''Nice'', comment_post_id = ''p1'',
                   comment_author_id = ''u2'', comment_created_at = 4, comment_updated_at = 4\<rparr>"

definition blog_db :: db where
  "blog_db = \<lparr>users = [alice, bob], posts = [hello_post, later_post],
              comments = [nice_comment]\<rparr>"

definition retitle :: PostUpdate where
  "retitle = \<lparr>pu_title = Some ''Hello again'', pu_content = None, pu_excerpt = None,
              pu_category = None\<rparr>"

definition reword :: CommentUpdate where
  "reword = \<lparr>cu_content = ''Very nice''\<rparr>"

text \<open>
  A configuration, stand-ins for the signature and the password hash, and a history of
  requests that builds the blog above from the empty database.
\<close>

definition example_settings :: Settings where
  "example_settings = \<lparr>SECRET_KEY = ''k'', ALGORITHM = ''HS256'',
                         ACCESS_TOKEN_EXPIRE_MINUTES = 1440\<rparr>"

definition example_sign :: signer where
  "example_sign algorithm secret payload = algorithm @ secret @ fst payload"

definition example_hash :: "string \<Rightarrow> string" where
  "example_hash password = ''h-'' @ password"

definition alice_token :: access_token where
  "alice_token = Signed ''u1'' 86401 ''HS256ku1''"

definition bob_token :: access_token where
  "bob_token = Signed ''u2'' 86402 ''HS256ku2''"

definition example_requests :: "request list" where
  "example_requests =
     [PostAuthRegister \<lparr>uc_email = ''a@x.com'', uc_name = ''Alice'', uc_password = ''secret1''\<rparr>
        ''u1'' 1,
      PostAuthRegister \<lparr>uc_email = ''b@x.com'', uc_name = ''Bob'', uc_password = ''secret2''\<rparr>
        ''u2'' 2,
      PostPosts (Some alice_token)
        \<lparr>pc_title = ''Hello'', pc_content = ''World'', pc_excerpt = Some ''Hi'',
          pc_category = None\<rparr> ''p1'' 3,
      PostPostsComments (Some bob_token) ''p1'' \<lparr>cc_content = ''Nice''\<rparr> ''c1'' 4,
      PostPosts (Some bob_token)
        \<lparr>pc_title = ''Again'', pc_content = ''More'', pc_excerpt = None,
          pc_category = Some ''news''\<rparr> ''p2'' 5,
      PutUsersMe (Some alice_token)
        \<lparr>uu_name = None, uu_profile_picture = Some ''https://x.com/a.png''\<rparr> 6]"

definition alice_registered :: User where
  "alice_registered = \<lparr>user_id = ''u1'', user_email = ''a@x.com'', user_password = ''h-secret1'',
            user_name = ''Alice'', user_profile_picture = None, user_created_at = 1\<rparr>"

definition alice_data :: UserCreate where
  "alice_data = \<lparr>uc_email = ''a@x.com'', uc_name = ''Alice'', uc_password = ''secret1''\<rparr>"

section \<open>Looking rows up and replacing them\<close>

lemma find_post_id:
  "find (\<lambda>p. post_id p = pid) ps = Some r \<Longrightarrow> post_id r = pid \<and> r \<in> set ps"
  by (induction ps) (auto split: if_splits)

lemma find_comment_id:
  "find (\<lambda>c. comment_id c = cid) cs = Some k \<Longrightarrow> comment_id k = cid \<and> k \<in> set cs"
  by (induction cs) (auto split: if_splits)

lemma find_map_post:
  assumes "post_id p' = t"
  shows "find (\<lambda>p. post_id p = k) (map (\<lambda>p. if post_id p = t then p' else p) ps) =
           (if k = t then map_option (\<lambda>_. p') (find (\<lambda>p. post_id p = t) ps)
            else find (\<lambda>p. post_id p = k) ps)"
  using assms by (induction ps) auto

lemma filter_map_post:
  assumes "post_id p' = t"
  shows "filter (\<lambda>p. post_id p \<noteq> t) (map (\<lambda>p. if post_id p = t then p' else p) ps) =
           filter (\<lambda>p. post_id p \<noteq> t) ps"
  using assms by (induction ps) auto

lemma apply_post_update_frame:
  "post_id (apply_post_update pd now p) = post_id p"
  "post_author_id (apply_post_update pd now p) = post_author_id p"
  "post_created_at (apply_post_update pd now p) = post_created_at p"
  "post_updated_at (apply_post_update pd now p) = now"
  by (simp_all add: apply_post_update_def Let_def split: option.splits)

lemma apply_post_update_fields:
  "post_title (apply_post_update pd now p) =
     (case pu_title pd of None \<Rightarrow> post_title p | Some t \<Rightarrow> t)"
  "post_content (apply_post_update pd now p) =
     (case pu_content pd of None \<Rightarrow> post_content p | Some t \<Rightarrow> t)"
  "post_excerpt (apply_post_update pd now p) =
     (case pu_excerpt pd of None \<Rightarrow> post_excerpt p | Some t \<Rightarrow> Some t)"
  "post_category (apply_post_update pd now p) =
     (case pu_category pd of None \<Rightarrow> post_category p | Some t \<Rightarrow> Some t)"
  by (simp_all add: apply_post_update_def Let_def split: option.splits)

lemma authenticated_author:
  "authenticated d u \<Longrightarrow> post_author_id p = user_id u \<Longrightarrow> users d' = users d
     \<Longrightarrow> post_author d' p = Some u"
  by (simp add: authenticated_def post_author_def)

lemma authenticated_comment_author:
  "authenticated d u \<Longrightarrow> comment_author_id c = user_id u \<Longrightarrow> users d' = users d
     \<Longrightarrow> comment_author d' c = Some u"
  by (simp add: authenticated_def comment_author_def)

section \<open>What the mutating handlers do to the store\<close>

lemma update_post_by_author:
  assumes "find (\<lambda>p. post_id p = pid) (posts d) = Some post"
      and "post_author_id post = user_id u" and "authenticated d u"
  shows "update_post pid pd u d now =
           (Inr \<lparr>pr_title = post_title (apply_post_update pd now post),
                 pr_content = post_content (apply_post_update pd now post),
                 pr_excerpt = post_excerpt (apply_post_update pd now post),
                 pr_category = post_category (apply_post_update pd now post),
                 pr_id = post_id post, pr_author_id = post_author_id post,
                 pr_author_name = user_name u, pr_author_profile_picture = None,
                 pr_created_at = post_created_at post, pr_updated_at = now\<rparr>,
            d\<lparr>posts := map (\<lambda>p. if post_id p = pid then apply_post_update pd now post else p)
                          (posts d)\<rparr>)"
proof -
  let ?p = "apply_post_update pd now post"
  let ?d = "d\<lparr>posts := map (\<lambda>p. if post_id p = pid then ?p else p) (posts d)\<rparr>"
  have "post_author ?d ?p = Some u"
    using assms by (intro authenticated_author[of d]) (simp_all add: apply_post_update_frame)
  then show ?thesis
    using assms by (simp add: update_post_def Let_def post_response_def apply_post_update_frame)
qed

lemma update_post_state:
  "snd (update_post tid pd u d now) = d \<or>
   (\<exists>post. find (\<lambda>p. post_id p = tid) (posts d) = Some post \<and>
      post_author_id post = user_id u \<and>
      snd (update_post tid pd u d now) =
        d\<lparr>posts := map (\<lambda>p. if post_id p = tid then apply_post_update pd now post else p)
                      (posts d)\<rparr>)"
  by (auto simp: update_post_def Let_def split: option.splits)

lemma handlers_fail_unchanged:
  assumes "authenticated d u"
  shows "fst (update_post pid pd u d now) = Inl e \<Longrightarrow> snd (update_post pid pd u d now) = d"
    and "fst (delete_post pid u d) = Inl e \<Longrightarrow> snd (delete_post pid u d) = d"
    and "fst (update_comment cid cd u d now) = Inl e \<Longrightarrow> snd (update_comment cid cd u d now) = d"
    and "fst (delete_comment cid u d) = Inl e \<Longrightarrow> snd (delete_comment cid u d) = d"
    and "fst (create_post pc u d uuid now) = Inl e \<Longrightarrow> snd (create_post pc u d uuid now) = d"
    and "fst (create_comment pid cc u d uuid now) = Inl e \<Longrightarrow> snd (create_comment pid cc u d uuid now) = d"
proof -
  show "fst (update_post pid pd u d now) = Inl e \<Longrightarrow> snd (update_post pid pd u d now) = d"
  proof (cases "find (\<lambda>p. post_id p = pid) (posts d)")
    case None
    then show ?thesis by (simp add: update_post_def)
  next
    case (Some post)
    assume f: "fst (update_post pid pd u d now) = Inl e"
    show ?thesis
    proof (cases "post_author_id post = user_id u")
      case True
      from update_post_by_author[OF Some True assms, of pd now] f show ?thesis by simp
    next
      case False
      then show ?thesis using Some by (simp add: update_post_def)
    qed
  qed
  show "fst (update_comment cid cd u d now) = Inl e \<Longrightarrow> snd (update_comment cid cd u d now) = d"
  proof (cases "find (\<lambda>c. comment_id c = cid) (comments d)")
    case None
    then show ?thesis by (simp add: update_comment_def)
  next
    case (Some comment)
    assume f: "fst (update_comment cid cd u d now) = Inl e"
    show ?thesis
    proof (cases "comment_author_id comment = user_id u")
      case True
      let ?c = "comment\<lparr>comment_content := cu_content cd, comment_updated_at := now\<rparr>"
      let ?d = "d\<lparr>comments := map (\<lambda>c. if comment_id c = cid then ?c else c) (comments d)\<rparr>"
      have "comment_author ?d ?c = Some u"
        using True assms by (intro authenticated_comment_author[of d]) simp_all
      then have "\<exists>r. update_comment cid cd u d now = (Inr r, ?d)"
        using Some True by (simp add: update_comment_def Let_def comment_response_def)
      with f show ?thesis by auto
    next
      case False
      then show ?thesis using Some by (simp add: update_comment_def)
    qed
  qed
qed (auto simp: delete_post_def delete_comment_def create_post_def create_comment_def Let_def
          split: option.splits if_splits)

section \<open>Every request preserves the integrity conditions\<close>

lemma get_current_user_authenticated:
  assumes "get_current_user cfg sign d now authorization = Inr u"
  shows "authenticated d u"
proof -
  from assms obtain subject where f: "find (\<lambda>v. user_id v = subject) (users d) = Some u"
    by (auto simp: get_current_user_def split: option.splits sum.splits)
  then have "user_id u = subject"
    by (induction "users d" arbitrary: d) (auto simp: find_Some_iff)
  with f show ?thesis by (simp add: authenticated_def)
qed

lemma protected_cases:
  obtains (rejected) "protected cfg sign d now authorization handler = d"
  | (accepted) u where "authenticated d u"
      "protected cfg sign d now authorization handler = handler u"
  using get_current_user_authenticated[of cfg sign d now authorization]
  by (cases "get_current_user cfg sign d now authorization") (auto simp: protected_def)

lemma authenticated_only_row:
  assumes "distinct (map user_id us)" and "find (\<lambda>v. user_id v = user_id u) us = Some u"
      and "v \<in> set us" and "user_id v = user_id u"
  shows "v = u"
proof -
  have "u \<in> set us" using assms(2) by (auto simp: find_Some_iff)
  with assms(1,3,4) show ?thesis by (meson distinct_map inj_onD)
qed

lemma update_user_profile_users:
  "map user_id (users (snd (update_user_profile ud u d))) = map user_id (users d)"
  "posts (snd (update_user_profile ud u d)) = posts d"
  "comments (snd (update_user_profile ud u d)) = comments d"
  by (auto simp: update_user_profile_def Let_def split: option.splits)

lemma update_user_profile_emails:
  assumes "distinct (map user_id (users d))" and "authenticated d u"
  shows "map user_email (users (snd (update_user_profile ud u d))) = map user_email (users d)"
proof -
  have "v = u" if "v \<in> set (users d)" "user_id v = user_id u" for v
    using authenticated_only_row[OF assms(1) _ that] assms(2) by (simp add: authenticated_def)
  then show ?thesis
    by (auto simp: update_user_profile_def Let_def split: option.splits)
qed

lemma register_state:
  "snd (register ud d uid gph now cfg sign) = d \<or>
   (find (\<lambda>u. user_email u = uc_email ud) (users d) = None \<and>
    \<not> list_ex (\<lambda>q. user_id q = uid \<or> user_email q = uc_email ud) (users d) \<and>
    snd (register ud d uid gph now cfg sign) =
      d\<lparr>users := users d @ [\<lparr>user_id = uid, user_email = uc_email ud,
                               user_password = gph (uc_password ud), user_name = uc_name ud,
                               user_profile_picture = None, user_created_at = now\<rparr>]\<rparr>)"
  by (auto simp: register_def add_user_def Let_def split: option.splits)

lemma users_unique_register:
  assumes "users_unique d"
  shows "users_unique (snd (register ud d uid gph now cfg sign))"
proof -
  let ?new = "\<lparr>user_id = uid, user_email = uc_email ud,
                user_password = gph (uc_password ud), user_name = uc_name ud,
                user_profile_picture = None, user_created_at = now\<rparr>"
  consider "snd (register ud d uid gph now cfg sign) = d"
    | "\<not> list_ex (\<lambda>q. user_id q = uid \<or> user_email q = uc_email ud) (users d)"
      "snd (register ud d uid gph now cfg sign) = d\<lparr>users := users d @ [?new]\<rparr>"
    using register_state[of ud d uid gph now cfg sign] by blast
  then show ?thesis
  proof cases
    case 1
    then show ?thesis using assms by simp
  next
    case 2
    from 2(1) have "uid \<notin> user_id ` set (users d)" "uc_email ud \<notin> user_email ` set (users d)"
      by (auto simp: list_ex_iff)
    then show ?thesis using assms by (simp add: 2(2) users_unique_def)
  qed
qed



lemma serve_cases:
  obtains (unchanged) "serve cfg sign gph d req = d"
  | (register) ud uid now where
      "serve cfg sign gph d req = snd (register ud d uid gph now cfg sign)"
  | (update_user_profile) u ud where "authenticated d u"
      "serve cfg sign gph d req = snd (update_user_profile ud u d)"
  | (create_post) u pc uid now where "authenticated d u"
      "serve cfg sign gph d req = snd (create_post pc u d uid now)"
  | (update_post) u pid pd now where "authenticated d u"
      "serve cfg sign gph d req = snd (update_post pid pd u d now)"
  | (delete_post) u pid where "authenticated d u"
      "serve cfg sign gph d req = snd (delete_post pid u d)"
  | (create_comment) u pid cc uid now where "authenticated d u"
      "serve cfg sign gph d req = snd (create_comment pid cc u d uid now)"
  | (update_comment) u cid cd now where "authenticated d u"
      "serve cfg sign gph d req = snd (update_comment cid cd u d now)"
  | (delete_comment) u cid where "authenticated d u"
      "serve cfg sign gph d req = snd (delete_comment cid u d)"
proof (cases req)
  case (PostAuthRegister ud uid now)
  then show ?thesis using register by simp
next
  case (PutUsersMe a ud now)
  show ?thesis
    by (rule protected_cases[of cfg sign d now a "\<lambda>u. snd (update_user_profile ud u d)"])
       (use PutUsersMe unchanged update_user_profile in simp_all)
next
  case (PostPosts a pc uid now)
  show ?thesis
    by (rule protected_cases[of cfg sign d now a "\<lambda>u. snd (create_post pc u d uid now)"])
       (use PostPosts unchanged create_post in simp_all)
next
  case (PutPosts a pid pd now)
  show ?thesis
    by (rule protected_cases[of cfg sign d now a "\<lambda>u. snd (update_post pid pd u d now)"])
       (use PutPosts unchanged update_post in simp_all)
next
  case (DeletePosts a pid now)
  show ?thesis
    by (rule protected_cases[of cfg sign d now a "\<lambda>u. snd (delete_post pid u d)"])
       (use DeletePosts unchanged delete_post in simp_all)
next
  case (PostPostsComments a pid cc uid now)
  show ?thesis
    by (rule protected_cases[of cfg sign d now a "\<lambda>u. snd (create_comment pid cc u d uid now)"])
       (use PostPostsComments unchanged create_comment in simp_all)
next
  case (PutComments a cid cd now)
  show ?thesis
    by (rule protected_cases[of cfg sign d now a "\<lambda>u. snd (update_comment cid cd u d now)"])
       (use PutComments unchanged update_comment in simp_all)
next
  case (DeleteComments a cid now)
  show ?thesis
    by (rule protected_cases[of cfg sign d now a "\<lambda>u. snd (delete_comment cid u d)"])
       (use DeleteComments unchanged delete_comment in simp_all)
qed


lemma create_post_state:
  "snd (create_post pc u d uid now) = d \<or>
   snd (create_post pc u d uid now) =
     d\<lparr>posts := posts d @
          [\<lparr>post_id = uid, post_title = pc_title pc, post_content = pc_content pc,
            post_excerpt = pc_excerpt pc, post_category = pc_category pc,
            post_author_id = user_id u, post_created_at = now, post_updated_at = now\<rparr>]\<rparr>"
  by (simp add: create_post_def add_post_def Let_def)

lemma delete_post_state:
  "snd (delete_post pid u d) = d \<or>
   snd (delete_post pid u d) =
     d\<lparr>posts := filter (\<lambda>p. post_id p \<noteq> pid) (posts d),
       comments := filter (\<lambda>c. comment_post_id c \<noteq> pid) (comments d)\<rparr>"
  by (auto simp: delete_post_def dest: find_post_id split: option.splits)

lemma create_comment_state:
  "snd (create_comment pid cc u d uid now) = d \<or>
   (\<exists>post. find (\<lambda>p. post_id p = pid) (posts d) = Some post) \<and>
   snd (create_comment pid cc u d uid now) =
     d\<lparr>comments := comments d @
          [\<lparr>comment_id = uid, comment_content = cc_content cc, comment_post_id = pid,
            comment_author_id = user_id u, comment_created_at = now,
            comment_updated_at = now\<rparr>]\<rparr>"
  by (simp add: create_comment_def add_comment_def Let_def split: option.splits)

lemma update_comment_state:
  "snd (update_comment cid cd u d now) = d \<or>
   (\<exists>comment. find (\<lambda>c. comment_id c = cid) (comments d) = Some comment \<and>
      snd (update_comment cid cd u d now) =
        d\<lparr>comments := map (\<lambda>c. if comment_id c = cid
                                then comment\<lparr>comment_content := cu_content cd,
                                             comment_updated_at := now\<rparr>
                                else c) (comments d)\<rparr>)"
  by (auto simp: update_comment_def Let_def split: option.splits)

lemma delete_comment_state:
  "snd (delete_comment cid u d) = d \<or>
   snd (delete_comment cid u d) =
     d\<lparr>comments := filter (\<lambda>c. comment_id c \<noteq> cid) (comments d)\<rparr>"
  by (auto simp: delete_comment_def dest: find_comment_id split: option.splits)

lemma users_unique_serve:
  assumes "users_unique d"
  shows "users_unique (serve cfg sign gph d req)"
proof (cases rule: serve_cases[of cfg sign gph d req])
  case unchanged
  then show ?thesis using assms by simp
next
  case (register ud uid now)
  then show ?thesis using users_unique_register[OF assms] by simp
next
  case (update_user_profile u ud)
  then show ?thesis
    using assms
    by (simp add: users_unique_def update_user_profile_users update_user_profile_emails)
next
  case (create_post u pc uid now)
  then show ?thesis
    using assms create_post_state[of pc u d uid now] by (auto simp: users_unique_def)
next
  case (update_post u pid pd now)
  then show ?thesis
    using assms update_post_state[of pid pd u d now] by (auto simp: users_unique_def)
next
  case (delete_post u pid)
  then show ?thesis
    using assms delete_post_state[of pid u d] by (auto simp: users_unique_def)
next
  case (create_comment u pid cc uid now)
  then show ?thesis
    using assms create_comment_state[of pid cc u d uid now] by (auto simp: users_unique_def)
next
  case (update_comment u cid cd now)
  then show ?thesis
    using assms update_comment_state[of cid cd u d now] by (auto simp: users_unique_def)
next
  case (delete_comment u cid)
  then show ?thesis
    using assms delete_comment_state[of cid u d] by (auto simp: users_unique_def)
qed

lemma foldl_invariant:
  assumes "P d" and "\<And>d req. P d \<Longrightarrow> P (f d req)"
  shows "P (foldl f d reqs)"
  using assms(1) by (induction reqs arbitrary: d) (simp_all add: assms(2))

lemma users_unique_run: "users_unique (run cfg sign gph reqs)"
  unfolding run_def
proof (rule foldl_invariant[where P = users_unique])
  show "users_unique empty_db" by (simp add: users_unique_def empty_db_def)
qed (rule users_unique_serve)


lemma comments_reference_posts_iff:
  "comments_reference_posts d \<longleftrightarrow>
     (\<forall>c\<in>set (comments d). comment_post_id c \<in> post_id ` set (posts d))"
  by (simp add: comments_reference_posts_def list_all_iff list_ex_iff image_iff eq_commute)

lemma posts_have_authors_iff:
  "posts_have_authors d \<longleftrightarrow>
     (\<forall>p\<in>set (posts d). post_author_id p \<in> user_id ` set (users d))"
  by (simp add: posts_have_authors_def list_all_iff list_ex_iff image_iff eq_commute)

lemma post_ids_filter:
  "post_id ` set (filter (\<lambda>p. post_id p \<noteq> pid) ps) = post_id ` set ps - {pid}"
  by auto

lemma post_ids_map:
  assumes "find (\<lambda>p. post_id p = pid) ps = Some post" and "post_id p' = pid"
  shows "post_id ` set (map (\<lambda>p. if post_id p = pid then p' else p) ps) = post_id ` set ps"
proof -
  have "post_id \<circ> (\<lambda>p. if post_id p = pid then p' else p) = post_id"
    using assms(2) by (auto simp: fun_eq_iff)
  then have "map post_id (map (\<lambda>p. if post_id p = pid then p' else p) ps) = map post_id ps"
    by (simp only: map_map)
  then show ?thesis by (metis set_map)
qed

lemma update_post_post_ids:
  "post_id ` set (posts (snd (update_post pid pd u d now))) = post_id ` set (posts d)"
proof -
  consider "snd (update_post pid pd u d now) = d"
    | post where "find (\<lambda>p. post_id p = pid) (posts d) = Some post"
        "snd (update_post pid pd u d now) =
           d\<lparr>posts := map (\<lambda>p. if post_id p = pid then apply_post_update pd now post else p)
                         (posts d)\<rparr>"
    using update_post_state[of pid pd u d now] by blast
  then show ?thesis
  proof cases
    case 1
    then show ?thesis by simp
  next
    case 2
    have "post_id (apply_post_update pd now post) = pid"
      using find_post_id[OF 2(1)] by (simp add: apply_post_update_frame)
    from post_ids_map[OF 2(1) this] show ?thesis by (simp add: 2(2))
  qed
qed

lemma update_post_author_ids:
  assumes "p \<in> set (posts (snd (update_post pid pd u d now)))"
  shows "\<exists>q\<in>set (posts d). post_author_id p = post_author_id q"
proof -
  consider "snd (update_post pid pd u d now) = d"
    | post where "find (\<lambda>p. post_id p = pid) (posts d) = Some post"
        "snd (update_post pid pd u d now) =
           d\<lparr>posts := map (\<lambda>p. if post_id p = pid then apply_post_update pd now post else p)
                         (posts d)\<rparr>"
    using update_post_state[of pid pd u d now] by blast
  then show ?thesis
  proof cases
    case 1
    with assms have "p \<in> set (posts d)" by simp
    then show ?thesis by blast
  next
    case 2
    have "post \<in> set (posts d)" using find_post_id[OF 2(1)] by simp
    moreover from assms obtain q where "q \<in> set (posts d)"
      "p = (if post_id q = pid then apply_post_update pd now post else q)"
      by (auto simp: 2(2))
    ultimately show ?thesis
      by (cases "post_id q = pid") (simp_all add: apply_post_update_frame, blast+)
  qed
qed

lemma update_post_other_tables:
  "users (snd (update_post pid pd u d now)) = users d"
  "comments (snd (update_post pid pd u d now)) = comments d"
  using update_post_state[of pid pd u d now] by auto

lemma update_comment_post_ids:
  assumes "c \<in> set (comments (snd (update_comment cid cd u d now)))"
  shows "\<exists>q\<in>set (comments d). comment_post_id c = comment_post_id q"
proof -
  consider "snd (update_comment cid cd u d now) = d"
    | comment where "find (\<lambda>c. comment_id c = cid) (comments d) = Some comment"
        "snd (update_comment cid cd u d now) =
        d\<lparr>comments := map (\<lambda>c. if comment_id c = cid
                                then comment\<lparr>comment_content := cu_content cd,
                                             comment_updated_at := now\<rparr>
                                else c) (comments d)\<rparr>"
    using update_comment_state[of cid cd u d now] by blast
  then show ?thesis
  proof cases
    case 1
    with assms have "c \<in> set (comments d)" by simp
    then show ?thesis by blast
  next
    case 2
    have "comment \<in> set (comments d)" using find_comment_id[OF 2(1)] by simp
    moreover from assms obtain q where "q \<in> set (comments d)"
      "c = (if comment_id q = cid
            then comment\<lparr>comment_content := cu_content cd, comment_updated_at := now\<rparr> else q)"
      by (auto simp: 2(2))
    ultimately show ?thesis
      by (cases "comment_id q = cid") (simp_all, blast+)
  qed
qed

lemma update_comment_other_tables:
  "users (snd (update_comment cid cd u d now)) = users d"
  "posts (snd (update_comment cid cd u d now)) = posts d"
  using update_comment_state[of cid cd u d now] by auto

lemma register_other_tables:
  "posts (snd (register ud d uid gph now cfg sign)) = posts d"
  "comments (snd (register ud d uid gph now cfg sign)) = comments d"
  "set (users d) \<subseteq> set (users (snd (register ud d uid gph now cfg sign)))"
  using register_state[of ud d uid gph now cfg sign] by auto

lemma comments_reference_posts_serve:
  assumes "comments_reference_posts d"
  shows "comments_reference_posts (serve cfg sign gph d req)"
proof (cases rule: serve_cases[of cfg sign gph d req])
  case unchanged
  then show ?thesis using assms by simp
next
  case (register ud uid now)
  then show ?thesis
    using assms by (simp add: comments_reference_posts_iff register_other_tables)
next
  case (update_user_profile u ud)
  then show ?thesis
    using assms by (simp add: comments_reference_posts_iff update_user_profile_users)
next
  case (create_post u pc uid now)
  then show ?thesis
    using assms create_post_state[of pc u d uid now]
    by (auto simp: comments_reference_posts_iff)
next
  case (update_post u pid pd now)
  then show ?thesis
    using assms
    by (simp add: comments_reference_posts_iff update_post_post_ids update_post_other_tables)
next
  case (delete_post u pid)
  from delete_post_state[of pid u d] show ?thesis
  proof
    assume "snd (delete_post pid u d) = d"
    then show ?thesis using assms delete_post by simp
  next
    assume st: "snd (delete_post pid u d) =
      d\<lparr>posts := filter (\<lambda>p. post_id p \<noteq> pid) (posts d),
        comments := filter (\<lambda>c. comment_post_id c \<noteq> pid) (comments d)\<rparr>"
    have "comment_post_id c \<in> post_id ` set (filter (\<lambda>p. post_id p \<noteq> pid) (posts d))"
      if "c \<in> set (filter (\<lambda>c. comment_post_id c \<noteq> pid) (comments d))" for c
    proof -
      from that have c: "c \<in> set (comments d)" "comment_post_id c \<noteq> pid" by simp_all
      with assms obtain p where p: "p \<in> set (posts d)" "comment_post_id c = post_id p"
        unfolding comments_reference_posts_iff by blast
      with c(2) have "p \<in> set (filter (\<lambda>p. post_id p \<noteq> pid) (posts d))" by simp
      with p(2) show ?thesis by (rule image_eqI)
    qed
    then show ?thesis
      unfolding comments_reference_posts_iff delete_post(2) st by simp
  qed
next
  case (create_comment u pid cc uid now)
  then show ?thesis
    using assms create_comment_state[of pid cc u d uid now]
    by (auto simp: comments_reference_posts_iff dest!: find_post_id)
next
  case (update_comment u cid cd now)
  have "comment_post_id c \<in> post_id ` set (posts d)"
    if "c \<in> set (comments (snd (update_comment cid cd u d now)))" for c
  proof -
    from update_comment_post_ids[OF that] obtain q
      where "q \<in> set (comments d)" "comment_post_id c = comment_post_id q" by blast
    with assms show ?thesis unfolding comments_reference_posts_iff by simp
  qed
  then show ?thesis
    unfolding comments_reference_posts_iff update_comment(2)
    by (simp add: update_comment_other_tables)
next
  case (delete_comment u cid)
  then show ?thesis
    using assms delete_comment_state[of cid u d]
    by (auto simp: comments_reference_posts_iff)
qed

lemma comments_reference_posts_run: "comments_reference_posts (run cfg sign gph reqs)"
  unfolding run_def
proof (rule foldl_invariant[where P = comments_reference_posts])
  show "comments_reference_posts empty_db"
    by (simp add: comments_reference_posts_def empty_db_def)
qed (rule comments_reference_posts_serve)

lemma authenticated_in_users: "authenticated d u \<Longrightarrow> u \<in> set (users d)"
  by (auto simp: authenticated_def find_Some_iff)

lemma posts_have_authors_serve:
  assumes "posts_have_authors d"
  shows "posts_have_authors (serve cfg sign gph d req)"
proof (cases rule: serve_cases[of cfg sign gph d req])
  case unchanged
  then show ?thesis using assms by simp
next
  case (register ud uid now)
  then show ?thesis
    using assms register_other_tables(3)[of d ud uid gph now cfg sign]
    by (auto simp: posts_have_authors_iff register_other_tables(1))
next
  case (update_user_profile u ud)
  have "user_id ` set (users (snd (update_user_profile ud u d))) = user_id ` set (users d)"
    using update_user_profile_users(1)[of ud u d] by (metis set_map)
  then show ?thesis
    using assms update_user_profile
    by (simp add: posts_have_authors_iff update_user_profile_users)
next
  case (create_post u pc uid now)
  then show ?thesis
    using assms create_post_state[of pc u d uid now] authenticated_in_users[of d u]
    by (auto simp: posts_have_authors_iff)
next
  case (update_post u pid pd now)
  have "post_author_id p \<in> user_id ` set (users d)"
    if "p \<in> set (posts (snd (update_post pid pd u d now)))" for p
  proof -
    from update_post_author_ids[OF that] obtain q
      where "q \<in> set (posts d)" "post_author_id p = post_author_id q" by blast
    with assms show ?thesis unfolding posts_have_authors_iff by simp
  qed
  then show ?thesis
    unfolding posts_have_authors_iff update_post(2) by (simp add: update_post_other_tables)
next
  case (delete_post u pid)
  then show ?thesis
    using assms delete_post_state[of pid u d]
    by (auto simp: posts_have_authors_iff)
next
  case (create_comment u pid cc uid now)
  then show ?thesis
    using assms create_comment_state[of pid cc u d uid now]
    by (auto simp: posts_have_authors_iff)
next
  case (update_comment u cid cd now)
  then show ?thesis
    using assms by (simp add: posts_have_authors_iff update_comment_other_tables)
next
  case (delete_comment u cid)
  then show ?thesis
    using assms delete_comment_state[of cid u d]
    by (auto simp: posts_have_authors_iff)
qed

lemma posts_have_authors_run: "posts_have_authors (run cfg sign gph reqs)"
  unfolding run_def
proof (rule foldl_invariant[where P = posts_have_authors])
  show "posts_have_authors empty_db"
    by (simp add: posts_have_authors_def empty_db_def)
qed (rule posts_have_authors_serve)

subsection \<open>The example history\<close>

lemma example_tokens:
  "create_access_token example_settings example_sign 1 ''u1'' = alice_token"
  "create_access_token example_settings example_sign 2 ''u2'' = bob_token"
  by (simp_all add: create_access_token_def example_settings_def example_sign_def
        alice_token_def bob_token_def)

lemma example_run: "run example_settings example_sign example_hash example_requests = blog_db"
  by (simp add: run_def example_requests_def empty_db_def blog_db_def alice_def bob_def
        hello_post_def later_post_def nice_comment_def
        register_def add_user_def create_post_def add_post_def create_comment_def
        add_comment_def update_user_profile_def protected_def get_current_user_def
        verify_token_def alice_token_def bob_token_def example_settings_def example_sign_def
        example_hash_def Let_def)

section \<open>Listings\<close>

lemma those_eq_Some: "those xs = Some ys \<longleftrightarrow> xs = map Some ys"
  by (induction xs arbitrary: ys) (auto split: option.splits)

lemma post_of_response_post_response:
  "post_response d p = Some r \<Longrightarrow> post_of_response r = p"
  by (auto simp: post_response_def post_of_response_def split: option.splits)

lemma responses_are_the_posts:
  "map (post_response d) ps = map Some rs \<Longrightarrow> map post_of_response rs = ps"
proof (induction ps arbitrary: rs)
  case Nil
  then show ?case by simp
next
  case (Cons p ps)
  then obtain r rs' where rs: "rs = r # rs'" by (cases rs) auto
  with Cons.prems have "post_response d p = Some r" "map (post_response d) ps = map Some rs'"
    by simp_all
  then show ?case
    using Cons.IH[of rs'] by (simp add: rs post_of_response_post_response)
qed

lemma responses_exist:
  "\<forall>p\<in>set ps. post_response d p \<noteq> None \<Longrightarrow> \<exists>rs. map (post_response d) ps = map Some rs"
proof (induction ps)
  case Nil
  then show ?case by simp
next
  case (Cons p ps)
  then obtain rs r where "map (post_response d) ps = map Some rs" "post_response d p = Some r"
    by auto
  then have "map (post_response d) (p # ps) = map Some (r # rs)" by simp
  then show ?case by blast
qed

lemma mset_order_by_desc: "mset (order_by_desc key xs) = mset xs"
  by (simp add: order_by_desc_def)

lemma sorted_order_by_desc: "sorted_wrt (\<lambda>a b. key b \<le> key a) (order_by_desc key xs)"
proof -
  have "sorted (map (\<lambda>x. - key x) (order_by_desc key xs))"
    unfolding order_by_desc_def by (rule sorted_sort_key)
  then show ?thesis by (simp add: sorted_map)
qed

lemma post_response_defined:
  assumes "posts_have_authors d" and "p \<in> set (posts d)"
  shows "post_response d p \<noteq> None"
proof -
  from assms obtain u where "u \<in> set (users d)" "user_id u = post_author_id p"
    by (auto simp: posts_have_authors_def list_all_iff list_ex_iff)
  then have "find (\<lambda>u. user_id u = post_author_id p) (users d) \<noteq> None"
    unfolding find_None_iff by blast
  then show ?thesis by (auto simp: post_response_def post_author_def)
qed

lemma get_all_posts_sorted:
  assumes "get_all_posts d = Inr rs"
  shows "mset (map post_of_response rs) = mset (posts d)"
    and "sorted_wrt (\<lambda>a b. pr_created_at b \<le> pr_created_at a) rs"
proof -
  let ?ps = "order_by_desc post_created_at (posts d)"
  from assms have "those (map (post_response d) ?ps) = Some rs"
    by (simp add: get_all_posts_def Let_def split: option.splits)
  then have eq: "map post_of_response rs = ?ps"
    by (simp add: those_eq_Some responses_are_the_posts)
  then show "mset (map post_of_response rs) = mset (posts d)"
    by (simp add: mset_order_by_desc)
  have "sorted_wrt (\<lambda>a b. post_created_at b \<le> post_created_at a) (map post_of_response rs)"
    unfolding eq by (rule sorted_order_by_desc)
  then show "sorted_wrt (\<lambda>a b. pr_created_at b \<le> pr_created_at a) rs"
    by (simp add: sorted_wrt_map post_of_response_def)
qed

lemma get_all_posts_succeeds:
  assumes "posts_have_authors d"
  shows "\<exists>rs. get_all_posts d = Inr rs"
proof -
  let ?ps = "order_by_desc post_created_at (posts d)"
  have "set ?ps = set (posts d)"
    using mset_order_by_desc[of post_created_at "posts d"] by (rule mset_eq_setD)
  then have "\<forall>p\<in>set ?ps. post_response d p \<noteq> None"
    using post_response_defined[OF assms] by simp
  from responses_exist[OF this] obtain rs where "map (post_response d) ?ps = map Some rs" ..
  then have "those (map (post_response d) ?ps) = Some rs"
    by (simp add: those_eq_Some)
  then show ?thesis by (simp add: get_all_posts_def Let_def)
qed

lemma get_user_posts_sorted:
  "map post_of_response (get_user_posts u d) =
     order_by_desc post_created_at (filter (\<lambda>p. post_author_id p = user_id u) (posts d))"
proof -
  have "post_of_response
          \<lparr>pr_title = post_title x, pr_content = post_content x, pr_excerpt = post_excerpt x,
           pr_category = post_category x, pr_id = post_id x, pr_author_id = post_author_id x,
           pr_author_name = n, pr_author_profile_picture = None,
           pr_created_at = post_created_at x, pr_updated_at = post_updated_at x\<rparr> = x"
    for x :: Post and n
    by (cases x) (simp add: post_of_response_def)
  then have "map (post_of_response \<circ> (\<lambda>post.
            \<lparr>pr_title = post_title post, pr_content = post_content post,
             pr_excerpt = post_excerpt post, pr_category = post_category post,
             pr_id = post_id post, pr_author_id = post_author_id post,
             pr_author_name = user_name u,
             pr_author_profile_picture = None,
             pr_created_at = post_created_at post,
             pr_updated_at = post_updated_at post\<rparr>)) ps = ps" for ps
    by (intro map_idI) (simp only: comp_apply)
  then show ?thesis
    by (simp only: get_user_posts_def Let_def map_map)
qed

section \<open>Registration\<close>

lemma register_success:
  assumes "register user_data d new_id gph now cfg sign = (Inr tok, d')"
  shows "tok = \<lparr>access_token = create_access_token cfg sign now new_id, token_type = ''bearer'',
                token_user = \<lparr>ur_email = uc_email user_data, ur_name = uc_name user_data,
                               ur_id = new_id, ur_profile_picture = None,
                               ur_created_at = now\<rparr>\<rparr>"
    and "d' = d\<lparr>users := users d @ [\<lparr>user_id = new_id, user_email = uc_email user_data,
                               user_password = gph (uc_password user_data),
                               user_name = uc_name user_data,
                               user_profile_picture = None, user_created_at = now\<rparr>]\<rparr>"
    and "\<forall>q\<in>set (users d). user_id q \<noteq> new_id"
  using assms
  by (auto simp: register_def add_user_def Let_def user_response_def list_ex_iff
           split: option.splits if_splits)

text \<open>
  The row a registration adds stays the only row under its identifier, with its email,
  password hash and creation time, whatever requests are served afterwards.
\<close>

lemma find_filter_head: "filter P xs = x # ys \<Longrightarrow> find P xs = Some x"
  by (induction xs) (auto split: if_splits)

lemma update_user_profile_state:
  "\<exists>u2. user_id u2 = user_id cu \<and> user_email u2 = user_email cu \<and>
        user_password u2 = user_password cu \<and> user_created_at u2 = user_created_at cu \<and>
        users (snd (update_user_profile ud cu d)) =
          map (\<lambda>v. if user_id v = user_id cu then u2 else v) (users d)"
proof -
  let ?u1 = "case uu_name ud of None \<Rightarrow> cu | Some n \<Rightarrow> cu\<lparr>user_name := n\<rparr>"
  let ?u2 = "case uu_profile_picture ud of
               None \<Rightarrow> ?u1 | Some pic \<Rightarrow> ?u1\<lparr>user_profile_picture := Some pic\<rparr>"
  have "user_id ?u2 = user_id cu" "user_email ?u2 = user_email cu"
    "user_password ?u2 = user_password cu" "user_created_at ?u2 = user_created_at cu"
    by (simp_all split: option.splits)
  moreover have "users (snd (update_user_profile ud cu d)) =
          map (\<lambda>v. if user_id v = user_id cu then ?u2 else v) (users d)"
    by (simp add: update_user_profile_def Let_def)
  ultimately show ?thesis by blast
qed

lemma registered_row_serve:
  assumes "filter (\<lambda>v. user_id v = uid) (users d) = [u]"
  shows "\<exists>u'. filter (\<lambda>v. user_id v = uid) (users (serve cfg sign gph d req)) = [u'] \<and>
           user_email u' = user_email u \<and> user_password u' = user_password u \<and>
           user_created_at u' = user_created_at u"
proof -
  have same: ?thesis if "users (serve cfg sign gph d req) = users d"
    using that assms by simp
  have "u \<in> set (filter (\<lambda>v. user_id v = uid) (users d))"
    by (simp add: assms)
  then have u: "u \<in> set (users d)" "user_id u = uid"
    by simp_all
  show ?thesis
  proof (cases rule: serve_cases[of cfg sign gph d req])
    case unchanged
    then show ?thesis by (intro same) simp
  next
    case (register ud uid' now)
    from register_state[of ud d uid' gph now cfg sign] show ?thesis
    proof (elim disjE conjE)
      assume "snd (register ud d uid' gph now cfg sign) = d"
      then show ?thesis using register by (intro same) simp
    next
      assume fresh: "\<not> list_ex (\<lambda>q. user_id q = uid' \<or> user_email q = uc_email ud) (users d)"
        and st: "snd (register ud d uid' gph now cfg sign) =
          d\<lparr>users := users d @ [\<lparr>user_id = uid', user_email = uc_email ud,
                               user_password = gph (uc_password ud), user_name = uc_name ud,
                               user_profile_picture = None, user_created_at = now\<rparr>]\<rparr>"
      from fresh u have "uid' \<noteq> uid" unfolding list_ex_iff by blast
      then show ?thesis using assms by (simp add: register st)
    qed
  next
    case (update_user_profile cu ud)
    from update_user_profile_state[of cu ud d] obtain u2 where u2:
      "user_id u2 = user_id cu" "user_email u2 = user_email cu"
      "user_password u2 = user_password cu" "user_created_at u2 = user_created_at cu"
      "users (snd (update_user_profile ud cu d)) =
          map (\<lambda>v. if user_id v = user_id cu then u2 else v) (users d)"
      by blast
    let ?f = "\<lambda>v. if user_id v = user_id cu then u2 else v"
    have "(\<lambda>v. user_id v = uid) \<circ> ?f = (\<lambda>v. user_id v = uid)"
      using u2(1) by (auto simp: fun_eq_iff)
    then have flt: "filter (\<lambda>v. user_id v = uid) (map ?f (users d)) = [?f u]"
      using assms by (simp add: filter_map)
    show ?thesis
    proof (cases "user_id cu = uid")
      case True
      have "find (\<lambda>v. user_id v = uid) (users d) = Some u"
        using assms by (rule find_filter_head)
      moreover have "find (\<lambda>v. user_id v = uid) (users d) = Some cu"
        using update_user_profile(1) True by (simp add: authenticated_def)
      ultimately have "cu = u" by simp
      then show ?thesis
        using flt u2 True u(2) by (simp add: update_user_profile(2))
    next
      case False
      then show ?thesis
        using flt u(2) by (simp add: update_user_profile(2) u2(5))
    qed
  next
    case (create_post cu pc uid' now)
    then show ?thesis using create_post_state[of pc cu d uid' now] by (intro same) auto
  next
    case (update_post cu pid pd now)
    then show ?thesis by (intro same) (simp add: update_post_other_tables)
  next
    case (delete_post cu pid)
    then show ?thesis using delete_post_state[of pid cu d] by (intro same) auto
  next
    case (create_comment cu pid cc uid' now)
    then show ?thesis using create_comment_state[of pid cc cu d uid' now] by (intro same) auto
  next
    case (update_comment cu cid cd now)
    then show ?thesis by (intro same) (simp add: update_comment_other_tables)
  next
    case (delete_comment cu cid)
    then show ?thesis using delete_comment_state[of cid cu d] by (intro same) auto
  qed
qed

lemma registered_row_foldl:
  assumes "filter (\<lambda>v. user_id v = uid) (users d) = [u]"
  shows "\<exists>u'. filter (\<lambda>v. user_id v = uid) (users (foldl (serve cfg sign gph) d reqs)) = [u'] \<and>
           user_email u' = user_email u \<and> user_password u' = user_password u \<and>
           user_created_at u' = user_created_at u"
  using assms
proof (induction reqs arbitrary: d u)
  case Nil
  then show ?case by simp
next
  case (Cons req reqs)
  from registered_row_serve[OF Cons.prems, of cfg sign gph req] obtain u1 where u1:
    "filter (\<lambda>v. user_id v = uid) (users (serve cfg sign gph d req)) = [u1]"
    "user_email u1 = user_email u" "user_password u1 = user_password u"
    "user_created_at u1 = user_created_at u"
    by blast
  from Cons.IH[OF u1(1)] show ?case by (simp add: u1)
qed

lemma later_requests_run:
  "foldl (serve example_settings example_sign example_hash)
     \<lparr>users = [alice_registered], posts = [], comments = []\<rparr> (tl example_requests) = blog_db"
  by (simp add: example_requests_def blog_db_def alice_def bob_def alice_registered_def
        hello_post_def later_post_def nice_comment_def
        register_def add_user_def create_post_def add_post_def create_comment_def
        add_comment_def update_user_profile_def protected_def get_current_user_def
        verify_token_def alice_token_def bob_token_def example_settings_def example_sign_def
        example_hash_def create_access_token_def user_response_def Let_def)

section \<open>Claims\<close>

subsection \<open>Updating a post\<close>

text \<open>
  Claim C7. For every existing post and every update request by its author (the
  authenticated caller), with any subset of title, content, excerpt and category provided:
  the request succeeds; the row stored under the post's id afterwards is the old row in
  which exactly the provided fields have their new values and \<^verbatim>\<open>updated_at\<close> is the time
  of the request, every other field of it (id, author id, creation time and each omitted
  field) being as before; the posts with other ids, the users and the comments are
  unchanged.
\<close>

theorem update_post_changes_exactly_provided_fields:
  assumes "find (\<lambda>p. post_id p = pid) (posts d) = Some post"
      and "post_author_id post = user_id u" and "authenticated d u"
  shows "fst (update_post pid pd u d now) =
           Inr \<lparr>pr_title = (case pu_title pd of Some t \<Rightarrow> t | None \<Rightarrow> post_title post),
                pr_content = (case pu_content pd of Some c \<Rightarrow> c | None \<Rightarrow> post_content post),
                pr_excerpt = (case pu_excerpt pd of Some e \<Rightarrow> Some e | None \<Rightarrow> post_excerpt post),
                pr_category = (case pu_category pd of Some c \<Rightarrow> Some c | None \<Rightarrow> post_category post),
                pr_id = post_id post, pr_author_id = post_author_id post,
                pr_author_name = user_name u, pr_author_profile_picture = None,
                pr_created_at = post_created_at post, pr_updated_at = now\<rparr>
       \<and> find (\<lambda>p. post_id p = pid) (posts (snd (update_post pid pd u d now))) =
           Some (post\<lparr>post_title := (case pu_title pd of Some t \<Rightarrow> t | None \<Rightarrow> post_title post),
                      post_content := (case pu_content pd of Some c \<Rightarrow> c | None \<Rightarrow> post_content post),
                      post_excerpt := (case pu_excerpt pd of Some e \<Rightarrow> Some e | None \<Rightarrow> post_excerpt post),
                      post_category := (case pu_category pd of Some c \<Rightarrow> Some c | None \<Rightarrow> post_category post),
                      post_updated_at := now\<rparr>)
       \<and> filter (\<lambda>p. post_id p \<noteq> pid) (posts (snd (update_post pid pd u d now))) =
           filter (\<lambda>p. post_id p \<noteq> pid) (posts d)
       \<and> users (snd (update_post pid pd u d now)) = users d
       \<and> comments (snd (update_post pid pd u d now)) = comments d"
proof -
  let ?p = "apply_post_update pd now post"
  have pid: "post_id ?p = pid"
    using find_post_id[OF assms(1)] by (simp add: apply_post_update_frame)
  have eq: "?p = post\<lparr>post_title := (case pu_title pd of Some t \<Rightarrow> t | None \<Rightarrow> post_title post),
                      post_content := (case pu_content pd of Some c \<Rightarrow> c | None \<Rightarrow> post_content post),
                      post_excerpt := (case pu_excerpt pd of Some e \<Rightarrow> Some e | None \<Rightarrow> post_excerpt post),
                      post_category := (case pu_category pd of Some c \<Rightarrow> Some c | None \<Rightarrow> post_category post),
                      post_updated_at := now\<rparr>"
    by (simp add: apply_post_update_def Let_def split: option.splits)
  note step = update_post_by_author[OF assms, of pd now]
  have "find (\<lambda>p. post_id p = pid) (posts (snd (update_post pid pd u d now))) = Some ?p"
    using assms(1) by (simp add: step find_map_post[OF pid])
  moreover have "filter (\<lambda>p. post_id p \<noteq> pid) (posts (snd (update_post pid pd u d now))) =
                   filter (\<lambda>p. post_id p \<noteq> pid) (posts d)"
    by (simp add: step filter_map_post[OF pid])
  moreover have "fst (update_post pid pd u d now) =
           Inr \<lparr>pr_title = (case pu_title pd of Some t \<Rightarrow> t | None \<Rightarrow> post_title post),
                pr_content = (case pu_content pd of Some c \<Rightarrow> c | None \<Rightarrow> post_content post),
                pr_excerpt = (case pu_excerpt pd of Some e \<Rightarrow> Some e | None \<Rightarrow> post_excerpt post),
                pr_category = (case pu_category pd of Some c \<Rightarrow> Some c | None \<Rightarrow> post_category post),
                pr_id = post_id post, pr_author_id = post_author_id post,
                pr_author_name = user_name u, pr_author_profile_picture = None,
                pr_created_at = post_created_at post, pr_updated_at = now\<rparr>"
    by (simp add: step apply_post_update_fields split: option.splits)
  moreover have "users (snd (update_post pid pd u d now)) = users d"
    "comments (snd (update_post pid pd u d now)) = comments d"
    by (simp_all add: step)
  ultimately show ?thesis
    unfolding eq by blast
qed

theorem update_post_changes_exactly_provided_fields_witness:
  "find (\<lambda>p. post_id p = ''p1'') (posts blog_db) = Some hello_post \<and>
   post_author_id hello_post = user_id alice \<and> authenticated blog_db alice \<and>
   find (\<lambda>p. post_id p = ''p1'') (posts (snd (update_post ''p1'' retitle alice blog_db 9))) =
     Some \<lparr>post_id = ''p1'', post_title = ''Hello again'', post_content = ''World'',
           post_excerpt = Some ''Hi'', post_category = None, post_author_id = ''u1'',
           post_created_at = 3, post_updated_at = 9\<rparr>"
proof -
  have h1: "find (\<lambda>p. post_id p = ''p1'') (posts blog_db) = Some hello_post"
    by (simp add: blog_db_def hello_post_def)
  have h2: "post_author_id hello_post = user_id alice"
    by (simp add: hello_post_def alice_def)
  have h3: "authenticated blog_db alice"
    by (simp add: authenticated_def blog_db_def alice_def)
  have "find (\<lambda>p. post_id p = ''p1'') (posts (snd (update_post ''p1'' retitle alice blog_db 9))) =
          Some (hello_post\<lparr>post_title := (case pu_title retitle of Some t \<Rightarrow> t | None \<Rightarrow> post_title hello_post),
                      post_content := (case pu_content retitle of Some c \<Rightarrow> c | None \<Rightarrow> post_content hello_post),
                      post_excerpt := (case pu_excerpt retitle of Some e \<Rightarrow> Some e | None \<Rightarrow> post_excerpt hello_post),
                      post_category := (case pu_category retitle of Some c \<Rightarrow> Some c | None \<Rightarrow> post_category hello_post),
                      post_updated_at := 9\<rparr>)"
    using update_post_changes_exactly_provided_fields[OF h1 h2 h3, of retitle 9] by blast
  also have "\<dots> = Some \<lparr>post_id = ''p1'', post_title = ''Hello again'', post_content = ''World'',
           post_excerpt = Some ''Hi'', post_category = None, post_author_id = ''u1'',
           post_created_at = 3, post_updated_at = 9\<rparr>"
    by (simp add: retitle_def hello_post_def)
  finally show ?thesis using h1 h2 h3 by blast
qed

text \<open>
  Claim C10. For every existing post and every update request in which the excerpt
  (resp. category) is absent or null, the stored excerpt (resp. category) is left
  unchanged; and no update request whatever, by any caller and on any target id, turns a
  stored excerpt or category that is not null into null.
\<close>

theorem update_post_never_resets_excerpt_or_category:
  assumes "find (\<lambda>p. post_id p = pid) (posts d) = Some post"
  shows "(pu_excerpt pd = None \<longrightarrow>
            map_option post_excerpt
              (find (\<lambda>p. post_id p = pid) (posts (snd (update_post pid pd u d now)))) =
            Some (post_excerpt post))
       \<and> (pu_category pd = None \<longrightarrow>
            map_option post_category
              (find (\<lambda>p. post_id p = pid) (posts (snd (update_post pid pd u d now)))) =
            Some (post_category post))
       \<and> (post_excerpt post \<noteq> None \<longrightarrow>
            (\<exists>e. map_option post_excerpt
               (find (\<lambda>p. post_id p = pid) (posts (snd (update_post tid pd u d now)))) =
             Some (Some e)))
       \<and> (post_category post \<noteq> None \<longrightarrow>
            (\<exists>c. map_option post_category
               (find (\<lambda>p. post_id p = pid) (posts (snd (update_post tid pd u d now)))) =
             Some (Some c)))"
proof -
  have stored: "find (\<lambda>p. post_id p = pid) (posts (snd (update_post t pd u d now))) =
          Some post \<or>
        find (\<lambda>p. post_id p = pid) (posts (snd (update_post t pd u d now))) =
          Some (apply_post_update pd now post)" for t
  proof -
    consider "snd (update_post t pd u d now) = d"
      | target where "find (\<lambda>p. post_id p = t) (posts d) = Some target"
          "snd (update_post t pd u d now) =
             d\<lparr>posts := map (\<lambda>p. if post_id p = t then apply_post_update pd now target else p)
                           (posts d)\<rparr>"
      using update_post_state[of t pd u d now] by blast
    then show ?thesis
    proof cases
      case 1
      then show ?thesis using assms by simp
    next
      case 2
      have t: "post_id (apply_post_update pd now target) = t"
        using find_post_id[OF 2(1)] by (simp add: apply_post_update_frame)
      show ?thesis
      proof (cases "pid = t")
        case True
        then have "target = post" using assms 2(1) by simp
        then show ?thesis using True assms by (simp add: 2(2) find_map_post[OF t])
      next
        case False
        then show ?thesis using assms by (simp add: 2(2) find_map_post[OF t])
      qed
    qed
  qed
  show ?thesis
    using stored[of pid] stored[of tid]
    by (auto simp: apply_post_update_fields split: option.splits)
qed

theorem update_post_never_resets_excerpt_or_category_witness:
  "find (\<lambda>p. post_id p = ''p1'') (posts blog_db) = Some hello_post \<and>
   pu_excerpt retitle = None \<and> post_excerpt hello_post \<noteq> None \<and>
   map_option post_excerpt
     (find (\<lambda>p. post_id p = ''p1'') (posts (snd (update_post ''p1'' retitle alice blog_db 9)))) =
   Some (post_excerpt hello_post) \<and>
   (\<exists>e. map_option post_excerpt
     (find (\<lambda>p. post_id p = ''p1'') (posts (snd (update_post ''p1'' retitle alice blog_db 9)))) =
   Some (Some e))"
proof -
  have h1: "find (\<lambda>p. post_id p = ''p1'') (posts blog_db) = Some hello_post"
    by (simp add: blog_db_def hello_post_def)
  have h2: "pu_excerpt retitle = None" "post_excerpt hello_post \<noteq> None"
    by (simp_all add: retitle_def hello_post_def)
  from update_post_never_resets_excerpt_or_category[OF h1, of retitle alice 9 "''p1''"] h1 h2 show ?thesis
    by blast
qed

subsection \<open>Ownership and the order of the checks\<close>

text \<open>
  Claim C1. For every user \<open>u\<close> and every existing post (resp. comment) \<open>r\<close>, update and
  delete on \<open>r\<close> succeed only when the identifier of \<open>u\<close> equals the author identifier of
  \<open>r\<close>; whenever the two differ, the operation fails with 403 and the store is unchanged.
\<close>

theorem only_author_may_update_or_delete:
  "(find (\<lambda>p. post_id p = pid) (posts d) = Some r \<and> user_id u \<noteq> post_author_id r \<longrightarrow>
      update_post pid post_data u d now =
        (Inl (HTTPException 403 ''Unauthorized access - only the author can edit this post''), d)
    \<and> delete_post pid u d =
        (Inl (HTTPException 403 ''Unauthorized access - only the author can delete this post''), d))
 \<and> (find (\<lambda>c. comment_id c = cid) (comments d) = Some k \<and> user_id u \<noteq> comment_author_id k \<longrightarrow>
      update_comment cid comment_data u d now =
        (Inl (HTTPException 403 ''Unauthorized access - only the author can edit this comment''), d)
    \<and> delete_comment cid u d =
        (Inl (HTTPException 403 ''Unauthorized access - only the author can delete this comment''), d))
 \<and> (find (\<lambda>p. post_id p = pid) (posts d) = Some r \<and>
      (fst (update_post pid post_data u d now) = Inr resp \<or> fst (delete_post pid u d) = Inr msg)
      \<longrightarrow> user_id u = post_author_id r)
 \<and> (find (\<lambda>c. comment_id c = cid) (comments d) = Some k \<and>
      (fst (update_comment cid comment_data u d now) = Inr cresp \<or> fst (delete_comment cid u d) = Inr msg)
      \<longrightarrow> user_id u = comment_author_id k)"
  by (auto simp: update_post_def delete_post_def update_comment_def delete_comment_def Let_def
           split: option.splits if_splits)

theorem only_author_may_update_or_delete_witness:
  "find (\<lambda>p. post_id p = ''p1'') (posts blog_db) = Some hello_post \<and>
   user_id bob \<noteq> post_author_id hello_post \<and>
   find (\<lambda>c. comment_id c = ''c1'') (comments blog_db) = Some nice_comment \<and>
   user_id alice \<noteq> comment_author_id nice_comment \<and>
   update_post ''p1'' retitle bob blog_db 9 =
     (Inl (HTTPException 403 ''Unauthorized access - only the author can edit this post''), blog_db) \<and>
   delete_post ''p1'' bob blog_db =
     (Inl (HTTPException 403 ''Unauthorized access - only the author can delete this post''), blog_db) \<and>
   update_comment ''c1'' reword alice blog_db 9 =
     (Inl (HTTPException 403 ''Unauthorized access - only the author can edit this comment''), blog_db) \<and>
   delete_comment ''c1'' alice blog_db =
     (Inl (HTTPException 403 ''Unauthorized access - only the author can delete this comment''), blog_db)"
proof -
  have h1: "find (\<lambda>p. post_id p = ''p1'') (posts blog_db) = Some hello_post \<and>
            user_id bob \<noteq> post_author_id hello_post"
    by (simp add: blog_db_def hello_post_def bob_def)
  have h2: "find (\<lambda>c. comment_id c = ''c1'') (comments blog_db) = Some nice_comment \<and>
            user_id alice \<noteq> comment_author_id nice_comment"
    by (simp add: blog_db_def nice_comment_def alice_def)
  note on_post = only_author_may_update_or_delete[where pid = "''p1''" and d = blog_db and r = hello_post and u = bob
                      and post_data = retitle and now = 9, THEN conjunct1, THEN mp, OF h1]
  note on_comment = only_author_may_update_or_delete[where cid = "''c1''" and d = blog_db and k = nice_comment and u = alice
                         and comment_data = reword and now = 9,
                       THEN conjunct2, THEN conjunct1, THEN mp, OF h2]
  from h1 h2 on_post on_comment show ?thesis
    by (elim conjE) (intro conjI; assumption)
qed

text \<open>
  Claim C6. The protected mutating handlers check existence, then ownership, then mutate:
  for an id under which no post (resp. comment) is stored the result is 404 whoever the
  caller is; a 403 is returned only for an entity that exists (and whose author is not the
  caller); and for an authenticated caller no failure of any of these handlers changes the
  store.
\<close>

theorem existence_before_ownership_before_mutation:
  "(find (\<lambda>p. post_id p = pid) (posts d) = None \<longrightarrow>
      update_post pid post_data u d now = (Inl (HTTPException 404 ''Post not found''), d)
    \<and> delete_post pid u d = (Inl (HTTPException 404 ''Post not found''), d)
    \<and> create_comment pid new_comment u d new_id now = (Inl (HTTPException 404 ''Post not found''), d))
 \<and> (find (\<lambda>c. comment_id c = cid) (comments d) = None \<longrightarrow>
      update_comment cid comment_data u d now = (Inl (HTTPException 404 ''Comment not found''), d)
    \<and> delete_comment cid u d = (Inl (HTTPException 404 ''Comment not found''), d))
 \<and> ((fst (update_post pid post_data u d now) = Inl e \<or> fst (delete_post pid u d) = Inl e) \<and>
      status_code e = 403 \<longrightarrow>
      (\<exists>r \<in> set (posts d). post_id r = pid \<and> post_author_id r \<noteq> user_id u))
 \<and> ((fst (update_comment cid comment_data u d now) = Inl e \<or> fst (delete_comment cid u d) = Inl e) \<and>
      status_code e = 403 \<longrightarrow>
      (\<exists>k \<in> set (comments d). comment_id k = cid \<and> comment_author_id k \<noteq> user_id u))
 \<and> (authenticated d u \<longrightarrow>
      (fst (update_post pid post_data u d now) = Inl e \<longrightarrow> snd (update_post pid post_data u d now) = d)
    \<and> (fst (delete_post pid u d) = Inl e \<longrightarrow> snd (delete_post pid u d) = d)
    \<and> (fst (update_comment cid comment_data u d now) = Inl e \<longrightarrow>
         snd (update_comment cid comment_data u d now) = d)
    \<and> (fst (delete_comment cid u d) = Inl e \<longrightarrow> snd (delete_comment cid u d) = d)
    \<and> (fst (create_post new_post u d new_id now) = Inl e \<longrightarrow>
         snd (create_post new_post u d new_id now) = d)
    \<and> (fst (create_comment pid new_comment u d new_id now) = Inl e \<longrightarrow>
         snd (create_comment pid new_comment u d new_id now) = d))"
proof (intro conjI impI)
  show "update_post pid post_data u d now = (Inl (HTTPException 404 ''Post not found''), d)"
    "delete_post pid u d = (Inl (HTTPException 404 ''Post not found''), d)"
    "create_comment pid new_comment u d new_id now = (Inl (HTTPException 404 ''Post not found''), d)"
    if "find (\<lambda>p. post_id p = pid) (posts d) = None"
    using that by (simp_all add: update_post_def delete_post_def create_comment_def)
  show "update_comment cid comment_data u d now = (Inl (HTTPException 404 ''Comment not found''), d)"
    "delete_comment cid u d = (Inl (HTTPException 404 ''Comment not found''), d)"
    if "find (\<lambda>c. comment_id c = cid) (comments d) = None"
    using that by (simp_all add: update_comment_def delete_comment_def)
  show "\<exists>r \<in> set (posts d). post_id r = pid \<and> post_author_id r \<noteq> user_id u"
    if "(fst (update_post pid post_data u d now) = Inl e \<or> fst (delete_post pid u d) = Inl e) \<and>
      status_code e = 403"
    using that
    by (auto simp: update_post_def delete_post_def Let_def dest: find_post_id
             split: option.splits if_splits)
  show "\<exists>k \<in> set (comments d). comment_id k = cid \<and> comment_author_id k \<noteq> user_id u"
    if "(fst (update_comment cid comment_data u d now) = Inl e \<or> fst (delete_comment cid u d) = Inl e) \<and>
      status_code e = 403"
    using that
    by (auto simp: update_comment_def delete_comment_def Let_def dest: find_comment_id
             split: option.splits if_splits)
qed (simp_all add: handlers_fail_unchanged)

theorem existence_before_ownership_before_mutation_witness:
  "find (\<lambda>p. post_id p = ''p9'') (posts blog_db) = None \<and>
   find (\<lambda>c. comment_id c = ''c9'') (comments blog_db) = None \<and>
   update_post ''p9'' retitle bob blog_db 9 = (Inl (HTTPException 404 ''Post not found''), blog_db) \<and>
   delete_post ''p9'' bob blog_db = (Inl (HTTPException 404 ''Post not found''), blog_db) \<and>
   create_comment ''p9'' \<lparr>cc_content = ''Hi''\<rparr> bob blog_db ''c2'' 9 =
     (Inl (HTTPException 404 ''Post not found''), blog_db) \<and>
   update_comment ''c9'' reword bob blog_db 9 =
     (Inl (HTTPException 404 ''Comment not found''), blog_db) \<and>
   delete_comment ''c9'' bob blog_db = (Inl (HTTPException 404 ''Comment not found''), blog_db) \<and>
   authenticated blog_db bob \<and>
   fst (update_post ''p1'' retitle bob blog_db 9) =
     Inl (HTTPException 403 ''Unauthorized access - only the author can edit this post'') \<and>
   (\<exists>r \<in> set (posts blog_db). post_id r = ''p1'' \<and> post_author_id r \<noteq> user_id bob) \<and>
   snd (update_post ''p1'' retitle bob blog_db 9) = blog_db"
proof -
  let ?e = "HTTPException 403 ''Unauthorized access - only the author can edit this post''"
  have h1: "find (\<lambda>p. post_id p = ''p9'') (posts blog_db) = None"
    by (simp add: blog_db_def hello_post_def later_post_def)
  have h2: "find (\<lambda>c. comment_id c = ''c9'') (comments blog_db) = None"
    by (simp add: blog_db_def nice_comment_def)
  have h3: "authenticated blog_db bob"
    by (simp add: authenticated_def blog_db_def alice_def bob_def)
  have h4: "fst (update_post ''p1'' retitle bob blog_db 9) = Inl ?e"
    by (simp add: update_post_def blog_db_def hello_post_def bob_def)
  have h5: "(fst (update_post ''p1'' retitle bob blog_db 9) = Inl ?e \<or>
             fst (delete_post ''p1'' bob blog_db) = Inl ?e) \<and> status_code ?e = 403"
    using h4 by simp
  note absent_post = existence_before_ownership_before_mutation[where pid = "''p9''" and d = blog_db and u = bob and post_data = retitle
                          and now = 9 and new_comment = "\<lparr>cc_content = ''Hi''\<rparr>"
                          and new_id = "''c2''",
                        THEN conjunct1, THEN mp, OF h1]
  note absent_comment = existence_before_ownership_before_mutation[where cid = "''c9''" and d = blog_db and u = bob
                             and comment_data = reword and now = 9,
                           THEN conjunct2, THEN conjunct1, THEN mp, OF h2]
  note t = existence_before_ownership_before_mutation[where pid = "''p1''" and d = blog_db and u = bob and post_data = retitle
                and now = 9 and e = ?e]
  note forbidden_exists = t[THEN conjunct2, THEN conjunct2, THEN conjunct1, THEN mp, OF h5]
  note unchanged = t[THEN conjunct2, THEN conjunct2, THEN conjunct2, THEN conjunct2,
                     THEN mp, OF h3, THEN conjunct1, THEN mp, OF h4]
  from h1 h2 h3 h4 absent_post absent_comment forbidden_exists unchanged show ?thesis
    by (elim conjE) (intro conjI; assumption)
qed

subsection \<open>Invariants of the store\<close>

text \<open>
  Claim C2. Creating a comment fails with 404 when the target post is absent; a
  successful post deletion removes the post and exactly the comments whose \<^verbatim>\<open>post_id\<close> is
  the deleted post's id; and in every state reached from the empty database by any
  sequence of requests, every comment references a post that exists.
\<close>

theorem comments_reference_existing_posts:
  "(find (\<lambda>p. post_id p = pid) (posts d) = None \<longrightarrow>
      create_comment pid comment_data u d new_id now =
        (Inl (HTTPException 404 ''Post not found''), d))
 \<and> (fst (delete_post pid u d) = Inr msg \<longrightarrow>
      comments (snd (delete_post pid u d)) =
        filter (\<lambda>c. comment_post_id c \<noteq> pid) (comments d) \<and>
      posts (snd (delete_post pid u d)) = filter (\<lambda>p. post_id p \<noteq> pid) (posts d) \<and>
      (\<forall>c\<in>set (comments (snd (delete_post pid u d))). comment_post_id c \<noteq> pid))
 \<and> (\<forall>c\<in>set (comments (run cfg sign gph reqs)).
       \<exists>p\<in>set (posts (run cfg sign gph reqs)). post_id p = comment_post_id c)"
proof (intro conjI impI)
  assume "find (\<lambda>p. post_id p = pid) (posts d) = None"
  then show "create_comment pid comment_data u d new_id now =
        (Inl (HTTPException 404 ''Post not found''), d)"
    by (simp add: create_comment_def)
next
  assume ok: "fst (delete_post pid u d) = Inr msg"
  have st: "snd (delete_post pid u d) =
      d\<lparr>posts := filter (\<lambda>p. post_id p \<noteq> pid) (posts d),
        comments := filter (\<lambda>c. comment_post_id c \<noteq> pid) (comments d)\<rparr>"
  proof (cases "find (\<lambda>p. post_id p = pid) (posts d)")
    case None
    with ok show ?thesis by (simp add: delete_post_def)
  next
    case (Some post)
    have "post_id post = pid" using find_post_id[OF Some] by simp
    with ok Some show ?thesis
      by (cases "post_author_id post = user_id u") (simp_all add: delete_post_def)
  qed
  show "comments (snd (delete_post pid u d)) =
        filter (\<lambda>c. comment_post_id c \<noteq> pid) (comments d)"
    "posts (snd (delete_post pid u d)) = filter (\<lambda>p. post_id p \<noteq> pid) (posts d)"
    "\<forall>c\<in>set (comments (snd (delete_post pid u d))). comment_post_id c \<noteq> pid"
    by (simp_all add: st)
next
  show "\<forall>c\<in>set (comments (run cfg sign gph reqs)).
       \<exists>p\<in>set (posts (run cfg sign gph reqs)). post_id p = comment_post_id c"
    using comments_reference_posts_run[of cfg sign gph reqs]
    by (simp add: comments_reference_posts_def list_all_iff list_ex_iff)
qed

theorem comments_reference_existing_posts_witness:
  "find (\<lambda>p. post_id p = ''p9'') (posts blog_db) = None \<and>
   create_comment ''p9'' \<lparr>cc_content = ''Hi''\<rparr> bob blog_db ''c2'' 9 =
     (Inl (HTTPException 404 ''Post not found''), blog_db) \<and>
   fst (delete_post ''p1'' alice blog_db) = Inr \<lparr>message = ''Post successfully deleted''\<rparr> \<and>
   comments (snd (delete_post ''p1'' alice blog_db)) =
     filter (\<lambda>c. comment_post_id c \<noteq> ''p1'') (comments blog_db) \<and>
   nice_comment \<in> set (comments (run example_settings example_sign example_hash
                                  example_requests)) \<and>
   (\<exists>p\<in>set (posts (run example_settings example_sign example_hash example_requests)).
      post_id p = comment_post_id nice_comment)"
proof -
  have h1: "find (\<lambda>p. post_id p = ''p9'') (posts blog_db) = None"
    by (simp add: blog_db_def hello_post_def later_post_def)
  have h2: "fst (delete_post ''p1'' alice blog_db) = Inr \<lparr>message = ''Post successfully deleted''\<rparr>"
    by (simp add: delete_post_def blog_db_def hello_post_def alice_def)
  have h3: "nice_comment \<in> set (comments (run example_settings example_sign example_hash
                                            example_requests))"
    by (simp add: example_run blog_db_def)
  note t = comments_reference_existing_posts
             [where pid = "''p9''" and d = blog_db and comment_data = "\<lparr>cc_content = ''Hi''\<rparr>"
                and u = bob and new_id = "''c2''" and now = 9]
  note t' = comments_reference_existing_posts
              [where pid = "''p1''" and d = blog_db and u = alice
                 and msg = "\<lparr>message = ''Post successfully deleted''\<rparr>"
                 and cfg = example_settings and sign = example_sign and gph = example_hash
                 and reqs = example_requests]
  note absent = t[THEN conjunct1, THEN mp, OF h1]
  note cascade = t'[THEN conjunct2, THEN conjunct1, THEN mp, OF h2, THEN conjunct1]
  note inv = t'[THEN conjunct2, THEN conjunct2, THEN bspec, OF h3]
  from h1 h2 h3 absent cascade inv show ?thesis
    by - (intro conjI; assumption)
qed

text \<open>
  Claim C3. If a user with the email of the request already exists, registration fails
  with 400 and the store is unchanged; and in every state reached from the empty database
  by any sequence of requests no two users share an email.
\<close>

theorem emails_stay_unique:
  "(e \<in> set (users d) \<and> user_email e = uc_email user_data \<longrightarrow>
      register user_data d new_id gph now cfg sign =
        (Inl (HTTPException 400 ''Email already registered''), d))
 \<and> distinct (map user_email (users (run cfg sign gph reqs)))"
proof (intro conjI impI)
  assume "e \<in> set (users d) \<and> user_email e = uc_email user_data"
  then have "find (\<lambda>u. user_email u = uc_email user_data) (users d) \<noteq> None"
    unfolding find_None_iff by blast
  then obtain existing_user
    where "find (\<lambda>u. user_email u = uc_email user_data) (users d) = Some existing_user"
    by blast
  then show "register user_data d new_id gph now cfg sign =
        (Inl (HTTPException 400 ''Email already registered''), d)"
    by (simp add: register_def)
next
  show "distinct (map user_email (users (run cfg sign gph reqs)))"
    using users_unique_run[of cfg sign gph reqs] by (simp add: users_unique_def)
qed

theorem emails_stay_unique_witness:
  "alice \<in> set (users blog_db) \<and>
   user_email alice = uc_email \<lparr>uc_email = ''a@x.com'', uc_name = ''Eve'', uc_password = ''secret3''\<rparr> \<and>
   register \<lparr>uc_email = ''a@x.com'', uc_name = ''Eve'', uc_password = ''secret3''\<rparr>
     blog_db ''u3'' example_hash 9 example_settings example_sign =
     (Inl (HTTPException 400 ''Email already registered''), blog_db) \<and>
   distinct (map user_email
     (users (run example_settings example_sign example_hash example_requests)))"
proof -
  have h: "alice \<in> set (users blog_db) \<and>
     user_email alice =
       uc_email \<lparr>uc_email = ''a@x.com'', uc_name = ''Eve'', uc_password = ''secret3''\<rparr>"
    by (simp add: blog_db_def alice_def)
  note t = emails_stay_unique[where e = alice and d = blog_db
                and user_data = "\<lparr>uc_email = ''a@x.com'', uc_name = ''Eve'',
                                  uc_password = ''secret3''\<rparr>"
                and new_id = "''u3''" and gph = example_hash and now = 9
                and cfg = example_settings and sign = example_sign and reqs = example_requests]
  from h t[THEN conjunct1, THEN mp, OF h] t[THEN conjunct2] show ?thesis
    by (elim conjE) (intro conjI; assumption)
qed

subsection \<open>Listings and post views\<close>

text \<open>
  Claim C9. In every state of the store reached from the empty database, listing all posts
  succeeds and returns exactly the stored posts; listing the posts of a user returns, in
  every state, exactly the posts whose author is that user; both lists are sorted by
  creation timestamp, newest first.
\<close>

theorem listings_are_complete_and_newest_first:
  "(\<exists>rs. get_all_posts (run cfg sign gph reqs) = Inr rs \<and>
        mset (map post_of_response rs) = mset (posts (run cfg sign gph reqs)) \<and>
        sorted_wrt (\<lambda>a b. pr_created_at b \<le> pr_created_at a) rs)
 \<and> mset (map post_of_response (get_user_posts u d)) =
       mset (filter (\<lambda>p. post_author_id p = user_id u) (posts d))
 \<and> sorted_wrt (\<lambda>a b. pr_created_at b \<le> pr_created_at a) (get_user_posts u d)"
proof (intro conjI)
  from get_all_posts_succeeds[OF posts_have_authors_run[of cfg sign gph reqs]]
  obtain rs where rs: "get_all_posts (run cfg sign gph reqs) = Inr rs" ..
  with get_all_posts_sorted[OF rs]
  show "\<exists>rs. get_all_posts (run cfg sign gph reqs) = Inr rs \<and>
        mset (map post_of_response rs) = mset (posts (run cfg sign gph reqs)) \<and>
        sorted_wrt (\<lambda>a b. pr_created_at b \<le> pr_created_at a) rs"
    by blast
next
  show "mset (map post_of_response (get_user_posts u d)) =
       mset (filter (\<lambda>p. post_author_id p = user_id u) (posts d))"
    by (simp add: get_user_posts_sorted mset_order_by_desc)
next
  have "sorted_wrt (\<lambda>a b. post_created_at b \<le> post_created_at a)
          (map post_of_response (get_user_posts u d))"
    unfolding get_user_posts_sorted by (rule sorted_order_by_desc)
  then show "sorted_wrt (\<lambda>a b. pr_created_at b \<le> pr_created_at a) (get_user_posts u d)"
    by (simp add: sorted_wrt_map post_of_response_def)
qed

theorem listings_are_complete_and_newest_first_witness:
  "(\<exists>rs. get_all_posts (run example_settings example_sign example_hash example_requests) = Inr rs \<and>
        mset (map post_of_response rs) =
          mset (posts (run example_settings example_sign example_hash example_requests)) \<and>
        sorted_wrt (\<lambda>a b. pr_created_at b \<le> pr_created_at a) rs)
 \<and> mset (map post_of_response (get_user_posts bob blog_db)) =
       mset (filter (\<lambda>p. post_author_id p = user_id bob) (posts blog_db))
 \<and> sorted_wrt (\<lambda>a b. pr_created_at b \<le> pr_created_at a) (get_user_posts bob blog_db)"
  by (rule listings_are_complete_and_newest_first)

text \<open>
  Claim C8 says that every post view returned by create, list-all and get-by-id carries
  the author's stored name and the author's stored profile picture. The three handlers fill
  \<^verbatim>\<open>author_name\<close> but never pass \<^verbatim>\<open>author_profile_picture\<close>, which the schema
  \<^verbatim>\<open>PostResponse\<close> declares and the comment handlers do fill: for an author with a stored
  picture the view carries none. The evaluation below is that case.
\<close>

theorem post_views_omit_author_profile_picture:
  "authenticated blog_db alice \<and>
   post_author blog_db hello_post = Some alice \<and>
   user_profile_picture alice = Some ''https://x.com/a.png'' \<and>
   get_post_by_id ''p1'' blog_db =
     Inr \<lparr>pr_title = ''Hello'', pr_content = ''World'', pr_excerpt = Some ''Hi'',
          pr_category = None, pr_id = ''p1'', pr_author_id = ''u1'', pr_author_name = ''Alice'',
          pr_author_profile_picture = None, pr_created_at = 3, pr_updated_at = 3\<rparr> \<and>
   get_all_posts blog_db =
     Inr [\<lparr>pr_title = ''Again'', pr_content = ''More'', pr_excerpt = None,
           pr_category = Some ''news'', pr_id = ''p2'', pr_author_id = ''u2'',
           pr_author_name = ''Bob'', pr_author_profile_picture = None, pr_created_at = 5,
           pr_updated_at = 5\<rparr>,
          \<lparr>pr_title = ''Hello'', pr_content = ''World'', pr_excerpt = Some ''Hi'',
           pr_category = None, pr_id = ''p1'', pr_author_id = ''u1'', pr_author_name = ''Alice'',
           pr_author_profile_picture = None, pr_created_at = 3, pr_updated_at = 3\<rparr>] \<and>
   fst (create_post \<lparr>pc_title = ''Third'', pc_content = ''Text'', pc_excerpt = None,
                     pc_category = None\<rparr> alice blog_db ''p3'' 9) =
     Inr \<lparr>pr_title = ''Third'', pr_content = ''Text'', pr_excerpt = None,
          pr_category = None, pr_id = ''p3'', pr_author_id = ''u1'', pr_author_name = ''Alice'',
          pr_author_profile_picture = None, pr_created_at = 9, pr_updated_at = 9\<rparr>"
  by (simp add: authenticated_def blog_db_def alice_def bob_def hello_post_def later_post_def
        post_author_def get_post_by_id_def post_response_def get_all_posts_def
        order_by_desc_def create_post_def add_post_def Let_def)

subsection \<open>Tokens\<close>

text \<open>
  Claim C4, amended. For every successful registration at time \<open>now\<close>, the returned
  access token encodes the identifier of the newly created user as its subject. Verifying
  the token at any time before its expiration (\<open>now\<close> plus the configured lifetime) returns
  that identifier, and at any time after the expiration it fails with \<open>InvalidToken\<close>.
  So the guard run with that token before the expiration resolves to the newly created
  user: on the store the registration left it returns exactly the new row, and on every
  store reached from it by further requests it returns the row with that identifier,
  email, password hash and creation time; after the expiration the guard answers
  \<open>Unauthenticated\<close>. The unamended claim has no bound on the time, and the evaluation
  after the witness is a token refused one second after its expiration.
\<close>

theorem registration_token_resolves_to_new_user:
  assumes "register user_data d new_id gph now cfg sign = (Inr tok, d')"
  shows "ur_id (token_user tok) = new_id
       \<and> access_token tok = create_access_token cfg sign now new_id
       \<and> (\<forall>q\<in>set (users d). user_id q \<noteq> new_id)
       \<and> users d' = users d @ [\<lparr>user_id = new_id, user_email = uc_email user_data,
                user_password = gph (uc_password user_data), user_name = uc_name user_data,
                user_profile_picture = None, user_created_at = now\<rparr>]
       \<and> (now' < now + 60 * ACCESS_TOKEN_EXPIRE_MINUTES cfg \<longrightarrow>
            verify_token cfg sign now' (access_token tok) = Inr new_id \<and>
            get_current_user cfg sign d' now' (Some (access_token tok)) =
              Inr \<lparr>user_id = new_id, user_email = uc_email user_data,
                   user_password = gph (uc_password user_data), user_name = uc_name user_data,
                   user_profile_picture = None, user_created_at = now\<rparr> \<and>
            (\<exists>u. get_current_user cfg sign (foldl (serve cfg sign gph) d' reqs) now'
                   (Some (access_token tok)) = Inr u \<and>
                 user_id u = new_id \<and> user_email u = uc_email user_data \<and>
                 user_password u = gph (uc_password user_data) \<and> user_created_at u = now))
       \<and> (now + 60 * ACCESS_TOKEN_EXPIRE_MINUTES cfg < now' \<longrightarrow>
            verify_token cfg sign now' (access_token tok) = Inl InvalidToken \<and>
            get_current_user cfg sign (foldl (serve cfg sign gph) d' reqs) now'
              (Some (access_token tok)) = Inl Unauthenticated)"
proof -
  let ?u = "\<lparr>user_id = new_id, user_email = uc_email user_data,
                user_password = gph (uc_password user_data), user_name = uc_name user_data,
                user_profile_picture = None, user_created_at = now\<rparr>"
  let ?exp = "now + 60 * ACCESS_TOKEN_EXPIRE_MINUTES cfg"
  let ?later = "foldl (serve cfg sign gph) d' reqs"
  note r = register_success[OF assms]
  have tok: "access_token tok = create_access_token cfg sign now new_id"
    by (simp add: r(1))
  have row: "filter (\<lambda>v. user_id v = new_id) (users d') = [?u]"
    using r(3) by (simp add: r(2))
  have accept: "verify_token cfg sign now' (access_token tok) = Inr new_id" if "now' < ?exp"
    using that by (simp add: tok create_access_token_def verify_token_def Let_def)
  have reject: "verify_token cfg sign now' (access_token tok) = Inl InvalidToken" if "?exp < now'"
    using that by (simp add: tok create_access_token_def verify_token_def Let_def)
  have here: "get_current_user cfg sign d' now' (Some (access_token tok)) = Inr ?u"
    if "now' < ?exp"
    using find_filter_head[OF row] by (simp add: get_current_user_def accept[OF that])
  have later: "\<exists>u. get_current_user cfg sign ?later now' (Some (access_token tok)) = Inr u \<and>
                 user_id u = new_id \<and> user_email u = uc_email user_data \<and>
                 user_password u = gph (uc_password user_data) \<and> user_created_at u = now"
    if "now' < ?exp"
  proof -
    from registered_row_foldl[OF row, of cfg sign gph reqs] obtain u where u:
      "filter (\<lambda>v. user_id v = new_id) (users ?later) = [u]"
      "user_email u = uc_email user_data" "user_password u = gph (uc_password user_data)"
      "user_created_at u = now"
      by auto
    have "u \<in> set (filter (\<lambda>v. user_id v = new_id) (users ?later))"
      by (simp add: u(1))
    then have "user_id u = new_id" by simp
    moreover have "get_current_user cfg sign ?later now' (Some (access_token tok)) = Inr u"
      using find_filter_head[OF u(1)] by (simp add: get_current_user_def accept[OF that])
    ultimately show ?thesis using u(2-4) by blast
  qed
  have refused: "get_current_user cfg sign ?later now' (Some (access_token tok)) =
                   Inl Unauthenticated" if "?exp < now'"
    by (simp add: get_current_user_def reject[OF that])
  have "ur_id (token_user tok) = new_id" by (simp add: r(1))
  moreover have "users d' = users d @ [?u]" by (simp add: r(2))
  ultimately show ?thesis
    using tok r(3) accept here later reject refused by blast
qed

theorem registration_token_resolves_to_new_user_witness:
  "register alice_data empty_db ''u1'' example_hash 1 example_settings example_sign =
     (Inr \<lparr>access_token = alice_token, token_type = ''bearer'',
           token_user = \<lparr>ur_email = ''a@x.com'', ur_name = ''Alice'', ur_id = ''u1'',
                          ur_profile_picture = None, ur_created_at = 1\<rparr>\<rparr>,
      \<lparr>users = [alice_registered], posts = [], comments = []\<rparr>) \<and>
   (100::int) < 1 + 60 * ACCESS_TOKEN_EXPIRE_MINUTES example_settings \<and>
   verify_token example_settings example_sign 100 alice_token = Inr ''u1'' \<and>
   get_current_user example_settings example_sign
     \<lparr>users = [alice_registered], posts = [], comments = []\<rparr> 100 (Some alice_token) =
     Inr alice_registered \<and>
   foldl (serve example_settings example_sign example_hash)
     \<lparr>users = [alice_registered], posts = [], comments = []\<rparr> (tl example_requests) = blog_db \<and>
   (\<exists>u. get_current_user example_settings example_sign blog_db 100 (Some alice_token) = Inr u \<and>
        user_id u = ''u1'' \<and> user_email u = ''a@x.com'' \<and> user_password u = ''h-secret1'' \<and>
        user_created_at u = 1) \<and>
   1 + 60 * ACCESS_TOKEN_EXPIRE_MINUTES example_settings < (86402::int) \<and>
   verify_token example_settings example_sign 86402 alice_token = Inl InvalidToken \<and>
   get_current_user example_settings example_sign blog_db 86402 (Some alice_token) =
     Inl Unauthenticated"
proof -
  let ?tok = "\<lparr>access_token = alice_token, token_type = ''bearer'',
           token_user = \<lparr>ur_email = ''a@x.com'', ur_name = ''Alice'', ur_id = ''u1'',
                          ur_profile_picture = None, ur_created_at = 1\<rparr>\<rparr>"
  let ?d = "\<lparr>users = [alice_registered], posts = [], comments = []\<rparr>"
  have h1: "register alice_data empty_db ''u1'' example_hash 1 example_settings example_sign =
              (Inr ?tok, ?d)"
    by (simp add: register_def add_user_def Let_def user_response_def alice_data_def
          empty_db_def example_hash_def alice_registered_def example_tokens)
  have h2: "(100::int) < 1 + 60 * ACCESS_TOKEN_EXPIRE_MINUTES example_settings"
    by (simp add: example_settings_def)
  have h3: "1 + 60 * ACCESS_TOKEN_EXPIRE_MINUTES example_settings < (86402::int)"
    by (simp add: example_settings_def)
  have u: "\<lparr>user_id = ''u1'', user_email = uc_email alice_data,
             user_password = example_hash (uc_password alice_data),
             user_name = uc_name alice_data,
             user_profile_picture = None, user_created_at = 1\<rparr> = alice_registered"
    by (simp add: alice_registered_def alice_data_def example_hash_def)
  have e: "uc_email alice_data = ''a@x.com''"
    "example_hash (uc_password alice_data) = ''h-secret1''"
    by (simp_all add: alice_data_def example_hash_def)
  have t: "access_token ?tok = alice_token" by simp
  note before = registration_token_resolves_to_new_user[OF h1, where now' = 100 and reqs = "tl example_requests",
                    unfolded u, unfolded t e later_requests_run,
                    THEN conjunct2, THEN conjunct2, THEN conjunct2, THEN conjunct2,
                    THEN conjunct1, THEN mp, OF h2]
  note after = registration_token_resolves_to_new_user[OF h1, where now' = 86402 and reqs = "tl example_requests",
                   unfolded u, unfolded t e later_requests_run,
                   THEN conjunct2, THEN conjunct2, THEN conjunct2, THEN conjunct2,
                   THEN conjunct2, THEN mp, OF h3]
  from h1 h2 h3 later_requests_run before after show ?thesis
    by (elim conjE) (intro conjI; assumption)
qed

theorem registration_token_expires_counterexample:
  "register alice_data empty_db ''u1'' example_hash 1 example_settings example_sign =
     (Inr \<lparr>access_token = alice_token, token_type = ''bearer'',
           token_user = \<lparr>ur_email = ''a@x.com'', ur_name = ''Alice'', ur_id = ''u1'',
                          ur_profile_picture = None, ur_created_at = 1\<rparr>\<rparr>,
      \<lparr>users = [alice_registered], posts = [], comments = []\<rparr>) \<and>
   verify_token example_settings example_sign 86402 alice_token = Inl InvalidToken \<and>
   verify_token example_settings example_sign 86402 alice_token \<noteq> Inr ''u1'' \<and>
   get_current_user example_settings example_sign
     \<lparr>users = [alice_registered], posts = [], comments = []\<rparr> 86402 (Some alice_token) =
     Inl Unauthenticated"
  by (simp add: register_def add_user_def Let_def user_response_def alice_data_def
        empty_db_def example_hash_def alice_registered_def example_tokens
        verify_token_def get_current_user_def alice_token_def example_settings_def
        example_sign_def create_access_token_def Unauthenticated_def)

end
